theory Spec2Isabelle
  imports Complex_Main
begin

section \<open>JavaScript values\<close>

text \<open>
  Values that cross the boundaries of the worker: tool arguments, message bodies and
  the wire-schema documents. \<^verbatim>\<open>undefined\<close> is a value of its own, since
  \<^verbatim>\<open>{ description: undefined }\<close> is an object with one property. A number is a
  double: a finite value, which is a rational, an infinity (\<^verbatim>\<open>JSON.parse("1e999")\<close>
  is \<^verbatim>\<open>Infinity\<close>) or \<^verbatim>\<open>NaN\<close>.
\<close>

datatype number = Fin rat | PosInfinity | NegInfinity | NaN

text \<open>An object is the list of its own enumerable string-keyed properties in the
  order in which \<^verbatim>\<open>Object.entries\<close>, \<^verbatim>\<open>Object.keys\<close> and \<^verbatim>\<open>for ... in\<close>
  yield them: the keys that are array indices first, in ascending numeric order, then
  the other keys in the order of their creation.\<close>

datatype jsval =
    JUndefined
  | JNull
  | JBool bool
  | JNum number
  | JStr string
  | JArr "jsval list"
  | JObj "(string \<times> jsval) list"

definition has_key :: "(string \<times> 'a) list \<Rightarrow> string \<Rightarrow> bool" where
  "has_key ps k = (map_of ps k \<noteq> None)"

text \<open>An array index is the canonical decimal form of an integer from 0 to
  4294967294.\<close>

definition digit_of :: "char \<Rightarrow> nat option" where
  "digit_of c = (if c \<in> set ''0123456789'' then Some (of_char c - 48) else None)"

fun digits_value :: "string \<Rightarrow> nat \<Rightarrow> nat option" where
  "digits_value [] acc = Some acc"
| "digits_value (c # cs) acc =
     (case digit_of c of None \<Rightarrow> None | Some d \<Rightarrow> digits_value cs (10 * acc + d))"

definition array_index :: "string \<Rightarrow> nat option" where
  "array_index s =
     (case s of
        [] \<Rightarrow> None
      | c # cs \<Rightarrow>
          if c = CHR ''0'' \<and> cs \<noteq> [] then None
          else (case digits_value s 0 of
                  None \<Rightarrow> None
                | Some n \<Rightarrow> if n < 4294967295 then Some n else None))"

text \<open>A new array-index key goes before the first key that is no array index or is
  a greater one.\<close>

fun insert_index :: "nat \<Rightarrow> string \<Rightarrow> 'a \<Rightarrow> (string \<times> 'a) list \<Rightarrow> (string \<times> 'a) list" where
  "insert_index n k v [] = [(k, v)]"
| "insert_index n k v ((k', v') # ps) =
     (case array_index k' of
        None \<Rightarrow> (k, v) # (k', v') # ps
      | Some m \<Rightarrow>
          if m < n then (k', v') # insert_index n k v ps else (k, v) # (k', v') # ps)"

text \<open>Property assignment \<^verbatim>\<open>o[k] = v\<close>: an existing key keeps its place and gets
  the value; a new key goes to its place in the order.\<close>

definition set_prop :: "string \<Rightarrow> 'a \<Rightarrow> (string \<times> 'a) list \<Rightarrow> (string \<times> 'a) list" where
  "set_prop k v ps =
     (if has_key ps k then map (\<lambda>(k', v'). if k' = k then (k, v) else (k', v')) ps
      else (case array_index k of
              None \<Rightarrow> ps @ [(k, v)]
            | Some n \<Rightarrow> insert_index n k v ps))"

text \<open>\<^verbatim>\<open>Object.fromEntries\<close>: the pairs are assigned from left to right.\<close>

definition fromEntries :: "(string \<times> 'a) list \<Rightarrow> (string \<times> 'a) list" where
  "fromEntries es = foldl (\<lambda>obj (k, v). set_prop k v obj) [] es"

text \<open>Property read \<^verbatim>\<open>o[k]\<close> on a value; \<open>None\<close> where the value has no such
  own property.\<close>

fun obj_get :: "jsval \<Rightarrow> string \<Rightarrow> jsval option" where
  "obj_get (JObj ps) k = map_of ps k"
| "obj_get _ k = None"

text \<open>The nullish test behind \<^verbatim>\<open>??\<close>.\<close>

fun nullish :: "jsval \<Rightarrow> bool" where
  "nullish JUndefined = True"
| "nullish JNull = True"
| "nullish _ = False"

definition coalesce :: "jsval \<Rightarrow> jsval \<Rightarrow> jsval" where
  "coalesce v d = (if nullish v then d else v)"

section \<open>types.ts\<close>

text \<open>
  \<^verbatim>\<open>RemoteToolField\<close>. The type tag is one of five strings; the compilers below
  have a \<^verbatim>\<open>default\<close> branch for any other tag, which \<open>TOther\<close> stands for.
  Optional members are \<open>option\<close>s; \<open>properties\<close> is a \<^verbatim>\<open>Record\<close>, given by its
  entries.
\<close>

datatype field_type = TString | TNumber | TBoolean | TArray | TObject | TOther

datatype RemoteToolField =
  RemoteToolField
    (ftype: field_type)
    (fdescription: "string option")
    (foptional: "bool option")
    (fitems: "RemoteToolField option")
    (fproperties: "(string \<times> RemoteToolField) list option")

text \<open>\<^verbatim>\<open>Object.entries(field.properties ?? {})\<close>\<close>

definition prop_entries :: "RemoteToolField \<Rightarrow> (string \<times> RemoteToolField) list" where
  "prop_entries f = (case fproperties f of None \<Rightarrow> [] | Some ps \<Rightarrow> ps)"

text \<open>The truthiness of \<^verbatim>\<open>field.optional\<close>.\<close>

definition is_optional :: "RemoteToolField \<Rightarrow> bool" where
  "is_optional f = (foptional f = Some True)"

section \<open>The wire-schema compiler (agents/my-mcp.ts)\<close>

definition descr :: "string option \<Rightarrow> jsval" where
  "descr d = (case d of None \<Rightarrow> JUndefined | Some s \<Rightarrow> JStr s)"

text \<open>The \<^verbatim>\<open>required\<close> array: the keys of the entries that are not optional, in
  entry order.\<close>

definition required_keys :: "(string \<times> RemoteToolField) list \<Rightarrow> string list" where
  "required_keys es = map fst (filter (\<lambda>(k, v). \<not> is_optional v) es)"

definition entries_of :: "(string \<times> 'a) list option \<Rightarrow> (string \<times> 'a) list" where
  "entries_of r = (case r of None \<Rightarrow> [] | Some ps \<Rightarrow> ps)"

fun jsonSchemaFromField :: "RemoteToolField \<Rightarrow> jsval" where
  "jsonSchemaFromField (RemoteToolField TString d opt its props) =
     JObj [(''type'', JStr ''string''), (''description'', descr d)]"
| "jsonSchemaFromField (RemoteToolField TNumber d opt its props) =
     JObj [(''type'', JStr ''number''), (''description'', descr d)]"
| "jsonSchemaFromField (RemoteToolField TBoolean d opt its props) =
     JObj [(''type'', JStr ''boolean''), (''description'', descr d)]"
| "jsonSchemaFromField (RemoteToolField TArray d opt its props) =
     JObj [(''type'', JStr ''array''),
           (''description'', descr d),
           (''items'', (case its of
                          Some i \<Rightarrow> jsonSchemaFromField i
                        | None \<Rightarrow> JObj []))]"
| "jsonSchemaFromField (RemoteToolField TObject d opt its props) =
     JObj [(''type'', JStr ''object''),
           (''description'', descr d),
           (''properties'',
              JObj (fromEntries
                (map (\<lambda>(k, v). (k, jsonSchemaFromField v))
                   (case props of None \<Rightarrow> [] | Some ps \<Rightarrow> ps)))),
           (''required'',
              JArr (map JStr
                (required_keys (case props of None \<Rightarrow> [] | Some ps \<Rightarrow> ps))))]"
| "jsonSchemaFromField (RemoteToolField TOther d opt its props) =
     JObj [(''description'', descr d)]"

section \<open>The validator library (zod)\<close>

text \<open>
  The validators are built with the zod library, which is a dependency and not part of
  the repository. Its schemas are modelled as a syntax tree with the constructors the
  repository uses, and \<open>zparse\<close> follows the behaviour of \<^verbatim>\<open>safeParse\<close> in
  zod 3: a value is accepted when no issue is raised, and the
  issues are collected with their paths. The URL test of \<^verbatim>\<open>z.string().url()\<close>
  belongs to the runtime and is a parameter.
\<close>

datatype string_check = Url

datatype number_check =
    IsInt
  | Min rat bool
  | Max rat bool

datatype zod =
    ZString "string_check list"
  | ZNumber "number_check list"
  | ZBoolean
  | ZAny
  | ZEnum "string list"
  | ZArray zod
  | ZOptional zod
  | ZRecord zod
  | ZObject "(string \<times> zod) list" "zod option"

text \<open>\<open>ZObject shape None\<close> is \<^verbatim>\<open>z.object(shape)\<close>, which strips unknown keys;
  \<open>ZObject shape (Some c)\<close> is \<^verbatim>\<open>z.object(shape).catchall(c)\<close>.\<close>

datatype path_seg = Key string | Index nat

datatype issue = Issue (issue_path: "path_seg list") (issue_code: string)

type_synonym parse_result = "issue list + jsval"

definition issues_of :: "parse_result \<Rightarrow> issue list" where
  "issues_of r = (case r of Inl e \<Rightarrow> e | Inr _ \<Rightarrow> [])"

definition value_of :: "parse_result \<Rightarrow> jsval" where
  "value_of r = (case r of Inl _ \<Rightarrow> JUndefined | Inr v \<Rightarrow> v)"

definition string_issues ::
  "(string \<Rightarrow> bool) \<Rightarrow> path_seg list \<Rightarrow> string \<Rightarrow> string_check list \<Rightarrow> issue list" where
  "string_issues url_ok p s cs =
     concat (map (\<lambda>c. case c of
                          Url \<Rightarrow> if url_ok s then [] else [Issue p ''invalid_string'']) cs)"

definition is_integer :: "number \<Rightarrow> bool" where
  "is_integer x = (case x of Fin r \<Rightarrow> of_int \<lfloor>r\<rfloor> = r | _ \<Rightarrow> False)"

text \<open>\<open>below x m\<close> is \<^verbatim>\<open>x < m\<close> and \<open>above x m\<close> is \<^verbatim>\<open>x > m\<close> for a number
  \<open>x\<close> that is not \<^verbatim>\<open>NaN\<close> and a finite bound \<open>m\<close>.\<close>

definition below :: "number \<Rightarrow> rat \<Rightarrow> bool" where
  "below x m = (case x of Fin r \<Rightarrow> r < m | NegInfinity \<Rightarrow> True | _ \<Rightarrow> False)"

definition above :: "number \<Rightarrow> rat \<Rightarrow> bool" where
  "above x m = (case x of Fin r \<Rightarrow> r > m | PosInfinity \<Rightarrow> True | _ \<Rightarrow> False)"

definition number_issues :: "path_seg list \<Rightarrow> number \<Rightarrow> number_check list \<Rightarrow> issue list" where
  "number_issues p x cs =
     concat (map (\<lambda>c. case c of
                          IsInt \<Rightarrow> if is_integer x then [] else [Issue p ''invalid_type'']
                        | Min m incl \<Rightarrow>
                            if (if incl then below x m else below x m \<or> x = Fin m)
                            then [Issue p ''too_small''] else []
                        | Max m incl \<Rightarrow>
                            if (if incl then above x m else above x m \<or> x = Fin m)
                            then [Issue p ''too_big''] else []) cs)"

definition finish :: "issue list \<Rightarrow> jsval \<Rightarrow> parse_result" where
  "finish errs v = (if errs = [] then Inr v else Inl errs)"

text \<open>
  The pairs of an object parse: the key, whether the key is in the input
  (\<^verbatim>\<open>alwaysSet\<close>), and the result for its value. The output object gets a key when
  the key is not \<^verbatim>\<open>__proto__\<close> and its value is defined or the key was in the
  input.
\<close>

definition merge_object :: "(string \<times> bool \<times> parse_result) list \<Rightarrow> parse_result" where
  "merge_object pairs =
     finish (concat (map (\<lambda>(k, a, r). issues_of r) pairs))
       (JObj (fromEntries
          (map (\<lambda>(k, a, r). (k, value_of r))
             (filter (\<lambda>(k, a, r). k \<noteq> ''__proto__'' \<and> (value_of r \<noteq> JUndefined \<or> a))
                pairs))))"

definition merge_array :: "parse_result list \<Rightarrow> parse_result" where
  "merge_array rs = finish (concat (map issues_of rs)) (JArr (map value_of rs))"

definition read_key :: "(string \<times> jsval) list \<Rightarrow> string \<Rightarrow> jsval" where
  "read_key ps k = (case map_of ps k of None \<Rightarrow> JUndefined | Some v \<Rightarrow> v)"

fun zparse :: "(string \<Rightarrow> bool) \<Rightarrow> zod \<Rightarrow> path_seg list \<Rightarrow> jsval \<Rightarrow> parse_result" where
  "zparse u (ZString cs) p v =
     (case v of
        JStr s \<Rightarrow> finish (string_issues u p s cs) v
      | _ \<Rightarrow> Inl [Issue p ''invalid_type''])"
| "zparse u (ZNumber cs) p v =
     (case v of
        JNum x \<Rightarrow>
          if x = NaN then Inl [Issue p ''invalid_type'']
          else finish (number_issues p x cs) v
      | _ \<Rightarrow> Inl [Issue p ''invalid_type''])"
| "zparse u ZBoolean p v =
     (case v of
        JBool b \<Rightarrow> Inr v
      | _ \<Rightarrow> Inl [Issue p ''invalid_type''])"
| "zparse u ZAny p v = Inr v"
| "zparse u (ZEnum vs) p v =
     (case v of
        JStr s \<Rightarrow> if s \<in> set vs then Inr v else Inl [Issue p ''invalid_enum_value'']
      | _ \<Rightarrow> Inl [Issue p ''invalid_type''])"
| "zparse u (ZArray z) p v =
     (case v of
        JArr xs \<Rightarrow>
          merge_array (map (\<lambda>(i, x). zparse u z (p @ [Index i]) x) (enumerate 0 xs))
      | _ \<Rightarrow> Inl [Issue p ''invalid_type''])"
| "zparse u (ZOptional z) p v =
     (if v = JUndefined then Inr JUndefined else zparse u z p v)"
| "zparse u (ZRecord z) p v =
     (case v of
        JObj ps \<Rightarrow>
          merge_object (map (\<lambda>(k, x). (k, True, zparse u z (p @ [Key k]) x)) ps)
      | _ \<Rightarrow> Inl [Issue p ''invalid_type''])"
| "zparse u (ZObject shape catchall) p v =
     (case v of
        JObj ps \<Rightarrow>
          merge_object
            (map (\<lambda>(k, z). (k, has_key ps k, zparse u z (p @ [Key k]) (read_key ps k))) shape
             @ (case catchall of
                  None \<Rightarrow> []
                | Some c \<Rightarrow>
                    map (\<lambda>(k, x). (k, True, zparse u c (p @ [Key k]) x))
                      (filter (\<lambda>(k, x). \<not> has_key shape k) ps)))
      | _ \<Rightarrow> Inl [Issue p ''invalid_type''])"

text \<open>\<^verbatim>\<open>schema.parseAsync(value)\<close>: the parse from the empty path.\<close>

definition parseAsync :: "(string \<Rightarrow> bool) \<Rightarrow> zod \<Rightarrow> jsval \<Rightarrow> parse_result" where
  "parseAsync u z v = zparse u z [] v"

section \<open>The validator compiler (agents/my-mcp.ts)\<close>

fun scalarField :: "RemoteToolField \<Rightarrow> zod" where
  "scalarField (RemoteToolField TString d opt its props) = ZString []"
| "scalarField (RemoteToolField TNumber d opt its props) = ZNumber []"
| "scalarField (RemoteToolField TBoolean d opt its props) = ZBoolean"
| "scalarField (RemoteToolField TArray d opt its props) =
     ZArray (case its of Some i \<Rightarrow> scalarField i | None \<Rightarrow> ZAny)"
| "scalarField (RemoteToolField TObject d opt its props) =
     ZObject
       (fromEntries
          (map (\<lambda>(k, v). (k, if is_optional v then ZOptional (scalarField v) else scalarField v))
             (case props of None \<Rightarrow> [] | Some ps \<Rightarrow> ps)))
       None"
| "scalarField (RemoteToolField TOther d opt its props) = ZAny"

section \<open>The agent runtime (McpAgent)\<close>

subsection \<open>Data\<close>

datatype error =
    DuplicateTool string
  | ToolNotFound string
  | ValidationError "issue list"
  | TypeError
  | SyntaxError
  | UnknownTool string
  | InvalidParams "issue list"

text \<open>\<open>DuplicateTool n\<close> is \<^verbatim>\<open>Error(`Tool ${n} already registered`)\<close>,
  \<open>ToolNotFound n\<close> is \<^verbatim>\<open>Error(`Tool ${n} not found`)\<close>, \<open>ValidationError\<close> is
  the rejection of \<^verbatim>\<open>parseAsync\<close>, \<open>SyntaxError\<close> the rejection of
  \<^verbatim>\<open>request.json()\<close>, and \<open>TypeError\<close> a property read on \<^verbatim>\<open>undefined\<close>.
  \<open>UnknownTool\<close> and \<open>InvalidParams\<close> are the errors with which the protocol SDK
  answers a call of a tool it does not know and a call whose arguments its own
  validation rejects.\<close>

type_synonym 'a result = "error + 'a"

text \<open>The environment bindings are handles to external services; only the
  configuration string is data.\<close>

record Env =
  MCP_REMOTE_TOOLS :: "string option"

type_synonym ExecutionContext = nat

record 'h ToolRegistration =
  tool_name :: string
  tool_description :: string
  tool_schema :: "zod option"
  tool_annotations :: "jsval option"
  tool_handler :: 'h
  tool_jsonSchema :: "jsval option"

text \<open>The argument of \<^verbatim>\<open>registerTool\<close>.\<close>

record 'h ToolDefinition =
  def_name :: string
  def_description :: string
  def_schema :: "zod option"
  def_annotations :: "jsval option"
  def_jsonSchemaOverride :: "jsval option"
  def_handler :: 'h

text \<open>What a handler is called with. The model ends at the handler boundary: an
  invocation that reaches the handler yields the call. The request object is handed
  on as it comes and is left out.\<close>

record ('h, 'st) HandlerCall =
  call_handler :: 'h
  call_args :: jsval
  call_env :: "Env option"
  call_state :: 'st
  call_executionCtx :: "ExecutionContext option"
  call_extra :: jsval

subsection \<open>Transports\<close>

datatype socket_event = MessageEvent | CloseEvent | ErrorEvent

text \<open>The listeners are the ones \<^verbatim>\<open>start\<close> adds to the socket, named by their
  event, in the order of \<^verbatim>\<open>addEventListener\<close>.\<close>

record WorkerWebSocketTransport =
  ws_started :: bool
  ws_listeners :: "socket_event list"

definition ws_start :: "WorkerWebSocketTransport \<Rightarrow> WorkerWebSocketTransport" where
  "ws_start t =
     (if ws_started t then t
      else t\<lparr>ws_started := True,
             ws_listeners := ws_listeners t @ [MessageEvent, CloseEvent, ErrorEvent]\<rparr>)"

text \<open>\<open>sse_onmessage\<close> tells whether the inbound callback is attached, and
  \<open>sse_delivered\<close> lists the messages handed to it.\<close>

record WorkerSseTransport =
  sse_started :: bool
  sse_sessionId :: "string option"
  sse_onmessage :: bool
  sse_delivered :: "jsval list"

definition new_WorkerSseTransport :: "string \<Rightarrow> WorkerSseTransport" where
  "new_WorkerSseTransport session =
     \<lparr>sse_started = False, sse_sessionId = Some session,
      sse_onmessage = False, sse_delivered = []\<rparr>"

definition sse_start :: "WorkerSseTransport \<Rightarrow> WorkerSseTransport" where
  "sse_start t = (if sse_started t then t else t\<lparr>sse_started := True\<rparr>)"

definition receive :: "WorkerSseTransport \<Rightarrow> jsval \<Rightarrow> WorkerSseTransport" where
  "receive t message =
     (if \<not> sse_onmessage t then t
      else t\<lparr>sse_delivered := sse_delivered t @ [message]\<rparr>)"

text \<open>\<^verbatim>\<open>server.connect(transport)\<close> of the protocol SDK attaches the callbacks of
  the transport and starts it.\<close>

definition connect :: "WorkerSseTransport \<Rightarrow> WorkerSseTransport" where
  "connect t = sse_start (t\<lparr>sse_onmessage := True\<rparr>)"

subsection \<open>Sessions\<close>

text \<open>A split-channel session with what its closures are bound to: the chunks
  enqueued on the response stream, whether the stream controller is closed, whether the
  heartbeat interval is running, and whether the protocol server is open.\<close>

record SseSession =
  sess_id :: string
  sess_transport :: WorkerSseTransport
  sess_chunks :: "string list"
  sess_stream_closed :: bool
  sess_heartbeat :: bool
  sess_server_open :: bool

text \<open>\<^verbatim>\<open>WorkerSseTransport.close\<close>: \<^verbatim>\<open>closeStream()\<close>, then the
  \<^verbatim>\<open>onclose\<close> callback, on which the protocol server lets go of the transport.\<close>

definition transport_close :: "SseSession \<Rightarrow> SseSession" where
  "transport_close s = s\<lparr>sess_stream_closed := True, sess_server_open := False\<rparr>"

text \<open>\<^verbatim>\<open>cleanup\<close>, the \<^verbatim>\<open>close\<close> of a session: clear the interval, close the
  transport, close the server.\<close>

definition cleanup :: "SseSession \<Rightarrow> SseSession" where
  "cleanup s = (transport_close (s\<lparr>sess_heartbeat := False\<rparr>))\<lparr>sess_server_open := False\<rparr>"

subsection \<open>The agent\<close>

text \<open>\<open>tools\<close> is a \<^verbatim>\<open>Map\<close>, kept in insertion order. \<open>notified\<close> lists the
  calls of the \<^verbatim>\<open>onStateUpdate\<close> hook and \<open>console\<close> the lines written with
  \<^verbatim>\<open>console.error\<close>.\<close>

record ('h, 'st) McpAgent =
  state :: 'st
  env :: "Env option"
  executionCtx :: "ExecutionContext option"
  initialized :: bool
  tools :: "(string \<times> 'h ToolRegistration) list"
  sseSessions :: "string \<rightharpoonup> SseSession"
  notified :: "'st list"
  console :: "string list"

definition new_McpAgent :: "'st \<Rightarrow> ('h, 'st) McpAgent" where
  "new_McpAgent initialState =
     \<lparr>state = initialState, env = None, executionCtx = None, initialized = False,
      tools = [], sseSessions = Map.empty, notified = [], console = []\<rparr>"

definition setState :: "('h, 'st) McpAgent \<Rightarrow> 'st \<Rightarrow> ('h, 'st) McpAgent" where
  "setState a next = a\<lparr>state := next, notified := notified a @ [next]\<rparr>"

definition registration :: "'h ToolDefinition \<Rightarrow> 'h ToolRegistration" where
  "registration d =
     \<lparr>tool_name = def_name d, tool_description = def_description d,
      tool_schema = def_schema d, tool_annotations = def_annotations d,
      tool_handler = def_handler d, tool_jsonSchema = def_jsonSchemaOverride d\<rparr>"

definition registerTool ::
  "('h, 'st) McpAgent \<Rightarrow> 'h ToolDefinition \<Rightarrow> unit result \<times> ('h, 'st) McpAgent" where
  "registerTool a d =
     (if has_key (tools a) (def_name d) then (Inl (DuplicateTool (def_name d)), a)
      else (Inr (), a\<lparr>tools := tools a @ [(def_name d, registration d)]\<rparr>))"

text \<open>The abstract \<^verbatim>\<open>init\<close> of the subclass is a parameter.\<close>

type_synonym ('h, 'st) init = "('h, 'st) McpAgent \<Rightarrow> unit result \<times> ('h, 'st) McpAgent"

text \<open>
  The branch of \<^verbatim>\<open>ensureInitialized\<close> that runs \<^verbatim>\<open>init\<close> has two halves around
  its \<^verbatim>\<open>await\<close>. \<open>enter_init\<close> is the half before it: the environment and the
  context are stored and \<^verbatim>\<open>this.init()\<close> is called. \<open>resume_init\<close> is the half
  after it, run on the agent as it is by then: a rejection of \<^verbatim>\<open>init\<close> is thrown
  on, otherwise the flag is set.
\<close>

definition enter_init ::
  "('h, 'st) init \<Rightarrow> ('h, 'st) McpAgent \<Rightarrow> Env \<Rightarrow> ExecutionContext
     \<Rightarrow> unit result \<times> ('h, 'st) McpAgent" where
  "enter_init init a e c = init (a\<lparr>env := Some e, executionCtx := Some c\<rparr>)"

definition resume_init ::
  "unit result \<Rightarrow> ('h, 'st) McpAgent \<Rightarrow> unit result \<times> ('h, 'st) McpAgent" where
  "resume_init r a =
     (case r of
        Inl err \<Rightarrow> (Inl err, a)
      | Inr _ \<Rightarrow> (Inr (), a\<lparr>initialized := True\<rparr>))"

text \<open>An invocation that nothing interrupts at the \<^verbatim>\<open>await\<close>.\<close>

definition ensureInitialized ::
  "('h, 'st) init \<Rightarrow> ('h, 'st) McpAgent \<Rightarrow> Env \<Rightarrow> ExecutionContext
     \<Rightarrow> unit result \<times> ('h, 'st) McpAgent" where
  "ensureInitialized init a e c =
     (if \<not> initialized a then
        (case enter_init init a e c of (r, a') \<Rightarrow> resume_init r a')
      else (Inr (), a\<lparr>env := Some e, executionCtx := Some c\<rparr>))"

definition ready ::
  "('h, 'st) init \<Rightarrow> ('h, 'st) McpAgent \<Rightarrow> Env \<Rightarrow> ExecutionContext
     \<Rightarrow> unit result \<times> ('h, 'st) McpAgent" where
  "ready init a e c = ensureInitialized init a e c"

text \<open>The callback \<^verbatim>\<open>createServer\<close> binds to a tool, with the two parameters
  \<^verbatim>\<open>args\<close> and \<^verbatim>\<open>extra\<close> it declares. What the two are in a call is up to the
  caller, the protocol SDK.\<close>

definition toolCallback ::
  "(string \<Rightarrow> bool) \<Rightarrow> ('h, 'st) McpAgent \<Rightarrow> 'h ToolRegistration \<Rightarrow> Env \<Rightarrow> ExecutionContext
     \<Rightarrow> jsval \<Rightarrow> jsval \<Rightarrow> ('h, 'st) HandlerCall result" where
  "toolCallback u a tool e c args extra =
     (case (case tool_schema tool of
              Some z \<Rightarrow> parseAsync u z args
            | None \<Rightarrow> Inr (coalesce args (JObj []))) of
        Inl errs \<Rightarrow> Inl (ValidationError errs)
      | Inr parsedArgs \<Rightarrow>
          Inr \<lparr>call_handler = tool_handler tool, call_args = parsedArgs,
               call_env = Some e, call_state = state a, call_executionCtx = Some c,
               call_extra = extra\<rparr>)"

text \<open>
  \<^verbatim>\<open>createServer\<close> registers every tool of the registry with a new protocol
  server: a tool with a schema with \<^verbatim>\<open>inputSchema: tool.schema.shape\<close>, a tool
  without a schema with no \<^verbatim>\<open>inputSchema\<close>, each with its callback.
\<close>

record 'h ServerTool =
  srv_inputSchema :: "(string \<times> zod) list option"
  srv_tool :: "'h ToolRegistration"

definition shape_of :: "zod \<Rightarrow> (string \<times> zod) list option" where
  "shape_of z = (case z of ZObject shape catchall \<Rightarrow> Some shape | _ \<Rightarrow> None)"

definition createServer :: "('h, 'st) McpAgent \<Rightarrow> (string \<times> 'h ServerTool) list" where
  "createServer a =
     map (\<lambda>(n, tool).
            (tool_name tool,
             \<lparr>srv_inputSchema = (case tool_schema tool of Some z \<Rightarrow> shape_of z | None \<Rightarrow> None),
              srv_tool = tool\<rparr>))
         (tools a)"

text \<open>
  The protocol SDK is a dependency and not part of the repository. Its handler for a
  \<^verbatim>\<open>tools/call\<close> request, as far as the callbacks depend on it: for a tool
  registered with an input schema the arguments of the request are parsed with
  \<^verbatim>\<open>z.object(inputSchema)\<close>, which strips unknown keys, and the callback is called
  with the parsed arguments and the \<^verbatim>\<open>extra\<close> object of the request; for a tool
  registered without an input schema the callback is called with the \<^verbatim>\<open>extra\<close>
  object alone. \<open>a\<close> is the agent at the time of the call, \<open>e\<close> and \<open>c\<close> are the
  environment and context \<^verbatim>\<open>createServer\<close> was called with.
\<close>

definition callTool ::
  "(string \<Rightarrow> bool) \<Rightarrow> ('h, 'st) McpAgent \<Rightarrow> (string \<times> 'h ServerTool) list \<Rightarrow> Env
     \<Rightarrow> ExecutionContext \<Rightarrow> string \<Rightarrow> jsval \<Rightarrow> jsval \<Rightarrow> ('h, 'st) HandlerCall result" where
  "callTool u a server e c n arguments extra =
     (case map_of server n of
        None \<Rightarrow> Inl (UnknownTool n)
      | Some t \<Rightarrow>
          (case srv_inputSchema t of
             Some shape \<Rightarrow>
               (case parseAsync u (ZObject shape None) arguments of
                  Inl errs \<Rightarrow> Inl (InvalidParams errs)
                | Inr args \<Rightarrow> toolCallback u a (srv_tool t) e c args extra)
           | None \<Rightarrow> toolCallback u a (srv_tool t) e c extra JUndefined))"

text \<open>\<^verbatim>\<open>zodToJsonSchema\<close> is a library function and a parameter.\<close>

definition listTools ::
  "(string \<Rightarrow> zod \<Rightarrow> jsval) \<Rightarrow> ('h, 'st) McpAgent
     \<Rightarrow> (string \<times> string \<times> jsval \<times> jsval option) list" where
  "listTools zodToJsonSchema a =
     map (\<lambda>(n, tool).
            (tool_name tool, tool_description tool,
             (case tool_jsonSchema tool of
                Some js \<Rightarrow> js
              | None \<Rightarrow>
                  (case tool_schema tool of
                     Some z \<Rightarrow> zodToJsonSchema (tool_name tool @ ''Input'') z
                   | None \<Rightarrow>
                       JObj [(''type'', JStr ''object''),
                             (''additionalProperties'', JBool True)])),
             tool_annotations tool))
         (tools a)"

definition invokeTool ::
  "(string \<Rightarrow> bool) \<Rightarrow> ('h, 'st) init \<Rightarrow> ('h, 'st) McpAgent \<Rightarrow> string \<Rightarrow> jsval \<Rightarrow> Env
     \<Rightarrow> ExecutionContext \<Rightarrow> ('h, 'st) HandlerCall result \<times> ('h, 'st) McpAgent" where
  "invokeTool u init a n args e c =
     (case ensureInitialized init a e c of
        (Inl err, a') \<Rightarrow> (Inl err, a')
      | (Inr _, a') \<Rightarrow>
          (case map_of (tools a') n of
             None \<Rightarrow> (Inl (ToolNotFound n), a')
           | Some tool \<Rightarrow>
               (case (case tool_schema tool of
                        Some z \<Rightarrow> parseAsync u z (coalesce args (JObj []))
                      | None \<Rightarrow> Inr (coalesce args (JObj []))) of
                  Inl errs \<Rightarrow> (Inl (ValidationError errs), a')
                | Inr parsedArgs \<Rightarrow>
                    (Inr \<lparr>call_handler = tool_handler tool, call_args = parsedArgs,
                          call_env = env a', call_state = state a',
                          call_executionCtx = executionCtx a', call_extra = JUndefined\<rparr>,
                     a'))))"

subsection \<open>The split-channel endpoint\<close>

record Request =
  req_method :: string
  req_pathname :: string
  req_json :: "jsval option"

text \<open>\<open>req_json\<close> is what \<^verbatim>\<open>request.json()\<close> resolves to, \<open>None\<close> when it
  rejects.\<close>

datatype body = NoBody | TextBody string | JsonBody jsval | StreamBody string

record Response =
  status :: nat
  resp_body :: body
  resp_headers :: "(string \<times> string) list"

text \<open>\<^verbatim>\<open>new Response(body, { status, headers })\<close>: the runtime gives a response with
  a string body the content type of plain text when the headers name none. A
  \<open>JsonBody\<close> is the string \<^verbatim>\<open>JSON.stringify\<close> makes of the value.\<close>

definition new_Response :: "body \<Rightarrow> nat \<Rightarrow> (string \<times> string) list \<Rightarrow> Response" where
  "new_Response b st hs =
     \<lparr>status = st, resp_body = b,
      resp_headers =
        (if (case b of TextBody t \<Rightarrow> True | JsonBody j \<Rightarrow> True | _ \<Rightarrow> False)
            \<and> \<not> has_key hs ''content-type''
         then hs @ [(''content-type'', ''text/plain;charset=UTF-8'')]
         else hs)\<rparr>"

text \<open>\<^verbatim>\<open>s.replace(pattern, "")\<close> with a string pattern removes its first
  occurrence.\<close>

fun remove_first :: "string \<Rightarrow> string \<Rightarrow> string" where
  "remove_first pat [] = []"
| "remove_first pat (c # cs) =
     (if take (length pat) (c # cs) = pat then drop (length pat) (c # cs)
      else c # remove_first pat cs)"

text \<open>\<^verbatim>\<open>url.pathname.replace(endpoint, "").replace(/^\/+/, "")\<close>\<close>

definition sessionId_of :: "string \<Rightarrow> string \<Rightarrow> string" where
  "sessionId_of endpoint pathname =
     dropWhile (\<lambda>c. c = CHR ''/'') (remove_first endpoint pathname)"

definition newline :: char where
  "newline = CHR 0x0A"

definition open_session :: "string \<Rightarrow> SseSession" where
  "open_session ident =
     \<lparr>sess_id = ident,
      sess_transport = connect (new_WorkerSseTransport ident),
      sess_chunks = ['': session '' @ ident @ [newline, newline]],
      sess_stream_closed = False,
      sess_heartbeat = True,
      sess_server_open = True\<rparr>"

definition stream_headers :: "string \<Rightarrow> (string \<times> string) list" where
  "stream_headers ident =
     [(''content-type'', ''text/event-stream; charset=utf-8''),
      (''cache-control'', ''no-cache, no-transform''),
      (''connection'', ''keep-alive''),
      (''x-mcp-session'', ident),
      (''access-control-expose-headers'', ''x-mcp-session'')]"

text \<open>The loop \<^verbatim>\<open>for (const message of messages) session.transport.receive(message)\<close>\<close>

definition deliver :: "SseSession \<Rightarrow> jsval list \<Rightarrow> SseSession" where
  "deliver s messages = s\<lparr>sess_transport := foldl receive (sess_transport s) messages\<rparr>"

definition messages_of :: "jsval \<Rightarrow> jsval list" where
  "messages_of b = (case b of JArr xs \<Rightarrow> xs | _ \<Rightarrow> [b])"

text \<open>\<open>uuid\<close> is what \<^verbatim>\<open>crypto.randomUUID()\<close> returns in this call.\<close>

definition handleSseRequest ::
  "('h, 'st) init \<Rightarrow> string \<Rightarrow> ('h, 'st) McpAgent \<Rightarrow> Request \<Rightarrow> Env \<Rightarrow> ExecutionContext
     \<Rightarrow> string \<Rightarrow> Response result \<times> ('h, 'st) McpAgent" where
  "handleSseRequest init uuid a request e c endpoint =
     (let sessionId = sessionId_of endpoint (req_pathname request) in
      if req_method request = ''GET'' \<and> sessionId = [] then
        (case ensureInitialized init a e c of
           (Inl err, a') \<Rightarrow> (Inl err, a')
         | (Inr _, a') \<Rightarrow>
             (Inr (new_Response (StreamBody uuid) 200 (stream_headers uuid)),
              a'\<lparr>sseSessions := (sseSessions a')(uuid \<mapsto> open_session uuid)\<rparr>))
      else if sessionId = [] then
        (Inr (new_Response (TextBody ''Missing session ID'') 400 []), a)
      else
        (case sseSessions a sessionId of
           None \<Rightarrow>
             (Inr (new_Response (TextBody ''Session not found'') 404 []), a)
         | Some session \<Rightarrow>
             if req_method request = ''POST'' then
               (case req_json request of
                  None \<Rightarrow> (Inl SyntaxError, a)
                | Some b \<Rightarrow>
                    (Inr (new_Response (JsonBody (JObj [(''ok'', JBool True)])) 200
                            [(''content-type'', ''application/json'')]),
                     a\<lparr>sseSessions :=
                         (sseSessions a)(sessionId \<mapsto> deliver session (messages_of b))\<rparr>))
             else if req_method request = ''DELETE'' then
               (Inr (new_Response NoBody 204 []),
                a\<lparr>sseSessions :=
                    ((sseSessions a)(sessionId \<mapsto> cleanup session))(sessionId := None)\<rparr>)
             else
               (Inr (new_Response (TextBody ''Unsupported method'') 405 []), a)))"

text \<open>The \<^verbatim>\<open>cancel\<close> callback of the response stream of session \<open>ident\<close>: the
  session's \<^verbatim>\<open>close\<close> runs when the session is still registered, then the
  identifier is deleted.\<close>

definition stream_cancel :: "('h, 'st) McpAgent \<Rightarrow> string \<Rightarrow> ('h, 'st) McpAgent" where
  "stream_cancel a ident =
     (let closed = (case sseSessions a ident of
                      None \<Rightarrow> sseSessions a
                    | Some session \<Rightarrow> (sseSessions a)(ident \<mapsto> cleanup session))
      in a\<lparr>sseSessions := closed(ident := None)\<rparr>)"

section \<open>The agent of the worker (MyMCP)\<close>

text \<open>
  \<^verbatim>\<open>RemoteToolConfig\<close>, as the code reads it: the registration loop tests
  \<^verbatim>\<open>config?.name\<close> and \<^verbatim>\<open>config?.endpoint\<close> and defaults the description,
  so each of the three may be absent, and the entry itself may be \<^verbatim>\<open>null\<close>.
\<close>

record RemoteToolConfig =
  cfg_name :: "string option"
  cfg_description :: "string option"
  cfg_endpoint :: "string option"
  cfg_method :: "string option"
  cfg_headers :: "(string \<times> string) list option"
  cfg_schema :: "(string \<times> RemoteToolField) list option"

text \<open>What \<^verbatim>\<open>JSON.parse\<close> gives for the configuration string: an array of
  entries, or a value that is no array. The parser belongs to the runtime and is a
  parameter, \<open>None\<close> where it throws.\<close>

datatype json_data = NotAnArray | ConfigArray "RemoteToolConfig option list"

text \<open>The handlers call external services; each is named by the tool it serves.\<close>

datatype handler =
    BrowserRender
  | D1Query
  | KvTool
  | VectorizeTool
  | DurableTask
  | RemoteProxy RemoteToolConfig

record AgentState =
  remoteTools :: "string list"

type_synonym agent = "(handler, AgentState) McpAgent"

definition new_MyMCP :: agent where
  "new_MyMCP = new_McpAgent \<lparr>remoteTools = []\<rparr>"

definition static_tool :: "string \<Rightarrow> string \<Rightarrow> zod \<Rightarrow> handler \<Rightarrow> handler ToolDefinition" where
  "static_tool n d z h =
     \<lparr>def_name = n, def_description = d, def_schema = Some z, def_annotations = None,
      def_jsonSchemaOverride = None, def_handler = h\<rparr>"

definition browser_schema :: zod where
  "browser_schema =
     ZObject
       [(''url'', ZString [Url]),
        (''endpoint'', ZOptional (ZString [Url])),
        (''method'', ZOptional (ZEnum [''GET'', ''POST''])),
        (''waitFor'', ZOptional (ZNumber [IsInt, Min 0 True, Max 120000 True])),
        (''screenshot'', ZOptional ZBoolean),
        (''script'', ZOptional (ZString [])),
        (''headers'', ZOptional (ZRecord (ZString []))),
        (''metadata'', ZOptional (ZRecord ZAny))]
       None"

definition registerBrowserTool :: "agent \<Rightarrow> unit result \<times> agent" where
  "registerBrowserTool a =
     registerTool a
       (static_tool ''browser_render''
          ''Render a web page using Cloudflare Browser Rendering and optionally run a Playwright script.''
          browser_schema BrowserRender)"

definition statementSchema :: zod where
  "statementSchema =
     ZObject [(''sql'', ZString []), (''params'', ZOptional (ZArray ZAny))] None"

definition d1_schema :: zod where
  "d1_schema =
     ZObject
       [(''statement'', ZOptional statementSchema),
        (''statements'', ZOptional (ZArray statementSchema)),
        (''readOnly'', ZOptional ZBoolean)]
       None"

definition registerD1Tool :: "agent \<Rightarrow> unit result \<times> agent" where
  "registerD1Tool a =
     registerTool a
       (static_tool ''d1_query''
          ''Execute SQL against the bound D1 database, supporting single or batched statements.''
          d1_schema D1Query)"

definition kv_schema :: zod where
  "kv_schema =
     ZObject
       [(''action'', ZEnum [''get'', ''put'', ''delete'', ''list'']),
        (''key'', ZOptional (ZString [])),
        (''value'', ZOptional (ZString [])),
        (''metadata'', ZOptional (ZRecord ZAny)),
        (''expirationTtl'', ZOptional (ZNumber [IsInt, Min 0 False])),
        (''prefix'', ZOptional (ZString [])),
        (''limit'', ZOptional (ZNumber [IsInt, Min 1 True, Max 1000 True])),
        (''type'', ZOptional (ZEnum [''text'', ''json'', ''arrayBuffer'']))]
       None"

definition registerKvTool :: "agent \<Rightarrow> unit result \<times> agent" where
  "registerKvTool a =
     registerTool a
       (static_tool ''kv''
          ''Perform CRUD operations against the bound KV namespace.''
          kv_schema KvTool)"

definition vectorSchema :: zod where
  "vectorSchema =
     ZObject
       [(''id'', ZString []),
        (''values'', ZArray (ZNumber [])),
        (''metadata'', ZOptional (ZRecord ZAny))]
       None"

definition vectorize_schema :: zod where
  "vectorize_schema =
     ZObject
       [(''action'', ZEnum [''upsert'', ''query'', ''delete'']),
        (''vectors'', ZOptional (ZArray vectorSchema)),
        (''vector'', ZOptional (ZArray (ZNumber []))),
        (''topK'', ZOptional (ZNumber [IsInt, Min 0 False])),
        (''filter'', ZOptional (ZRecord ZAny)),
        (''ids'', ZOptional (ZArray (ZString [])))]
       None"

definition registerVectorizeTool :: "agent \<Rightarrow> unit result \<times> agent" where
  "registerVectorizeTool a =
     registerTool a
       (static_tool ''vectorize''
          ''Interact with the Cloudflare Vectorize index for semantic storage and retrieval.''
          vectorize_schema VectorizeTool)"

definition durable_schema :: zod where
  "durable_schema =
     ZObject
       [(''action'', ZEnum [''start'', ''status'', ''list'', ''cancel'']),
        (''taskId'', ZOptional (ZString [])),
        (''payload'',
           ZOptional
             (ZObject
                [(''operation'', ZString []),
                 (''data'', ZOptional (ZRecord ZAny)),
                 (''durationMs'', ZOptional (ZNumber [IsInt, Min 0 False]))]
                None))]
       None"

definition registerDurableTool :: "agent \<Rightarrow> unit result \<times> agent" where
  "registerDurableTool a =
     registerTool a
       (static_tool ''durable_task''
          ''Interact with the Durable Object for long-running workflows.''
          durable_schema DurableTask)"

subsection \<open>Tools from the configuration\<close>

text \<open>The test \<^verbatim>\<open>!config?.name || !config?.endpoint\<close>: an entry is used when it
  is an object whose name and endpoint are non-empty strings.\<close>

definition usable :: "RemoteToolConfig option \<Rightarrow> (string \<times> string \<times> RemoteToolConfig) option" where
  "usable c =
     (case c of
        None \<Rightarrow> None
      | Some cfg \<Rightarrow>
          (case cfg_name cfg of
             None \<Rightarrow> None
           | Some n \<Rightarrow>
               (case cfg_endpoint cfg of
                  None \<Rightarrow> None
                | Some ep \<Rightarrow> if n = [] \<or> ep = [] then None else Some (n, ep, cfg))))"

definition remote_shape :: "RemoteToolConfig \<Rightarrow> (string \<times> zod) list" where
  "remote_shape cfg =
     fromEntries
       (map (\<lambda>(k, field). (k, if is_optional field then ZOptional (scalarField field)
                                else scalarField field))
          (entries_of (cfg_schema cfg)))"

definition remote_schema :: "RemoteToolConfig \<Rightarrow> zod" where
  "remote_schema cfg = ZObject (remote_shape cfg) (Some ZAny)"

definition remote_jsonSchema :: "RemoteToolConfig \<Rightarrow> jsval" where
  "remote_jsonSchema cfg =
     JObj [(''type'', JStr ''object''),
           (''properties'',
              JObj (fromEntries
                (map (\<lambda>(k, field). (k, jsonSchemaFromField field))
                   (entries_of (cfg_schema cfg))))),
           (''required'', JArr (map JStr (required_keys (entries_of (cfg_schema cfg)))))]"

definition remote_tool :: "string \<Rightarrow> string \<Rightarrow> RemoteToolConfig \<Rightarrow> handler ToolDefinition" where
  "remote_tool n ep cfg =
     \<lparr>def_name = n,
      def_description =
        (case cfg_description cfg of
           Some d \<Rightarrow> d
         | None \<Rightarrow> ''Proxy request to '' @ ep),
      def_schema = Some (remote_schema cfg),
      def_annotations = None,
      def_jsonSchemaOverride = Some (remote_jsonSchema cfg),
      def_handler = RemoteProxy cfg\<rparr>"

text \<open>The loop over the parsed entries, with the names registered so far. An entry
  without a name or an endpoint is passed over; a registration that throws ends the
  loop.\<close>

fun register_entries ::
  "agent \<Rightarrow> string list \<Rightarrow> RemoteToolConfig option list \<Rightarrow> string list result \<times> agent" where
  "register_entries a registered [] = (Inr registered, a)"
| "register_entries a registered (c # cs) =
     (case usable c of
        None \<Rightarrow> register_entries a registered cs
      | Some (n, ep, cfg) \<Rightarrow>
          (case registerTool a (remote_tool n ep cfg) of
             (Inl err, a') \<Rightarrow> (Inl err, a')
           | (Inr _, a') \<Rightarrow> register_entries a' (registered @ [n]) cs))"

definition registerRemoteTools ::
  "(string \<Rightarrow> json_data option) \<Rightarrow> agent \<Rightarrow> unit result \<times> agent" where
  "registerRemoteTools JSON_parse a =
     (case env a of
        None \<Rightarrow> (Inl TypeError, a)
      | Some e \<Rightarrow>
          (case MCP_REMOTE_TOOLS e of
             None \<Rightarrow> (Inr (), a)
           | Some raw \<Rightarrow>
               if raw = [] then (Inr (), a)
               else
                 (case JSON_parse raw of
                    None \<Rightarrow>
                      (Inr (), a\<lparr>console := console a @ [''Failed to parse MCP_REMOTE_TOOLS'']\<rparr>)
                  | Some data \<Rightarrow>
                      (case register_entries a []
                              (case data of ConfigArray cs \<Rightarrow> cs | NotAnArray \<Rightarrow> []) of
                         (Inl err, a') \<Rightarrow> (Inl err, a')
                       | (Inr registered, a') \<Rightarrow>
                           if registered \<noteq> [] then
                             (Inr (), setState a' \<lparr>remoteTools = registered\<rparr>)
                           else (Inr (), a')))))"

text \<open>Statements in sequence: the first that throws ends the sequence.\<close>

definition and_then ::
  "unit result \<times> 's \<Rightarrow> ('s \<Rightarrow> unit result \<times> 's) \<Rightarrow> unit result \<times> 's" where
  "and_then r f = (case r of (Inl err, s) \<Rightarrow> (Inl err, s) | (Inr _, s) \<Rightarrow> f s)"

definition init :: "(string \<Rightarrow> json_data option) \<Rightarrow> agent \<Rightarrow> unit result \<times> agent" where
  "init JSON_parse a =
     and_then (and_then (and_then (and_then (and_then
       (registerBrowserTool a)
       registerD1Tool)
       registerKvTool)
       registerVectorizeTool)
       registerDurableTool)
       (registerRemoteTools JSON_parse)"

section \<open>Notions the properties are stated with\<close>

subsection \<open>Levels of a field tree and of a schema document\<close>

text \<open>A level is reached by a path: into a named property of an object, or into the
  items of an array. \<open>wf_field\<close> is the invariant of JavaScript objects: the keys of
  a \<^verbatim>\<open>properties\<close> record are pairwise different, at every level.\<close>

datatype step = Prop string | Items

fun field_at :: "RemoteToolField \<Rightarrow> step list \<Rightarrow> RemoteToolField option" where
  "field_at f [] = Some f"
| "field_at f (Prop k # p) =
     (if ftype f = TObject then
        (case map_of (prop_entries f) k of None \<Rightarrow> None | Some g \<Rightarrow> field_at g p)
      else None)"
| "field_at f (Items # p) =
     (if ftype f = TArray then
        (case fitems f of None \<Rightarrow> None | Some g \<Rightarrow> field_at g p)
      else None)"

fun schema_at :: "jsval \<Rightarrow> step list \<Rightarrow> jsval option" where
  "schema_at s [] = Some s"
| "schema_at s (Prop k # p) =
     (case obj_get s ''properties'' of
        None \<Rightarrow> None
      | Some ps \<Rightarrow> (case obj_get ps k of None \<Rightarrow> None | Some s' \<Rightarrow> schema_at s' p))"
| "schema_at s (Items # p) =
     (case obj_get s ''items'' of None \<Rightarrow> None | Some s' \<Rightarrow> schema_at s' p)"

fun wf_field :: "RemoteToolField \<Rightarrow> bool" where
  "wf_field (RemoteToolField t d opt its props) =
     ((case its of None \<Rightarrow> True | Some i \<Rightarrow> wf_field i) \<and>
      (case props of
         None \<Rightarrow> True
       | Some ps \<Rightarrow> distinct (map fst ps) \<and> (\<forall>kv \<in> set ps. wf_field (snd kv))))"

text \<open>The top level of the document built for a configured tool, seen as an object
  field over the configured schema.\<close>

definition root_field :: "RemoteToolConfig \<Rightarrow> RemoteToolField" where
  "root_field cfg = RemoteToolField TObject None None None (cfg_schema cfg)"

text \<open>A field tree with an object nested under an array, for the examples.\<close>

definition f0_inner :: RemoteToolField where
  "f0_inner = RemoteToolField TObject (Some ''inner'') None None
     (Some [(''x'', RemoteToolField TBoolean None (Some False) None None),
            (''y'', RemoteToolField TString None (Some True) None None)])"

definition f0 :: RemoteToolField where
  "f0 = RemoteToolField TObject None None None
          (Some [(''a'', RemoteToolField TString None None None None),
                 (''b'', RemoteToolField TNumber None (Some True) None None),
                 (''c'', RemoteToolField TArray None None (Some f0_inner) None)])"

subsection \<open>Histories of the split-channel endpoint\<close>

text \<open>What can happen to the sessions of an agent: a request to the endpoint (with the
  identifier a new session would get) and the cancellation of the stream of a session.
  These are the two places where the \<^verbatim>\<open>close\<close> of a split-channel session runs.
  \<open>issues op ident\<close> holds when \<open>op\<close> could register a session under \<open>ident\<close>.\<close>

datatype sse_op =
    Req string Request Env ExecutionContext
  | Cancel string

fun apply_op ::
  "('h, 'st) init \<Rightarrow> string \<Rightarrow> ('h, 'st) McpAgent \<Rightarrow> sse_op \<Rightarrow> ('h, 'st) McpAgent" where
  "apply_op i endpoint a (Req uuid r e c) = snd (handleSseRequest i uuid a r e c endpoint)"
| "apply_op i endpoint a (Cancel ident) = stream_cancel a ident"

fun issues :: "sse_op \<Rightarrow> string \<Rightarrow> bool" where
  "issues (Req uuid r e c) ident = (uuid = ident)"
| "issues _ ident = False"

text \<open>The responses of the endpoint that the properties name.\<close>

definition no_content :: Response where
  "no_content = \<lparr>status = 204, resp_body = NoBody, resp_headers = []\<rparr>"

definition not_found :: Response where
  "not_found =
     \<lparr>status = 404, resp_body = TextBody ''Session not found'',
      resp_headers = [(''content-type'', ''text/plain;charset=UTF-8'')]\<rparr>"

definition delivered_ok :: Response where
  "delivered_ok =
     \<lparr>status = 200, resp_body = JsonBody (JObj [(''ok'', JBool True)]),
      resp_headers = [(''content-type'', ''application/json'')]\<rparr>"

text \<open>Every registered session is registered under its own identifier and is open:
  its stream is not closed, its heartbeat runs and its protocol server is open.\<close>

definition all_live :: "('h, 'st) McpAgent \<Rightarrow> bool" where
  "all_live a \<longleftrightarrow>
     (\<forall>ident session. sseSessions a ident = Some session \<longrightarrow>
        sess_id session = ident \<and> \<not> sess_stream_closed session \<and>
        sess_heartbeat session \<and> sess_server_open session)"

text \<open>The members of the agent that registering tools leaves alone.\<close>

definition untouched :: "agent \<Rightarrow> agent \<Rightarrow> bool" where
  "untouched a a' \<longleftrightarrow>
     sseSessions a' = sseSessions a \<and> initialized a' = initialized a \<and>
     env a' = env a \<and> executionCtx a' = executionCtx a"


subsection \<open>Sequences of invocations of the initializer\<close>

text \<open>Invocations of \<open>ensureInitialized\<close> one after the other, each run to its end:
  the agent they leave, how many of them enter the branch that runs \<^verbatim>\<open>init\<close>, and
  how many of them fail. \<open>names_distinct\<close> says that no name is registered twice.\<close>

fun invocations ::
  "('h, 'st) init \<Rightarrow> ('h, 'st) McpAgent \<Rightarrow> (Env \<times> ExecutionContext) list \<Rightarrow> ('h, 'st) McpAgent" where
  "invocations i a [] = a"
| "invocations i a ((e, c) # rest) = invocations i (snd (ensureInitialized i a e c)) rest"

fun setup_runs ::
  "('h, 'st) init \<Rightarrow> ('h, 'st) McpAgent \<Rightarrow> (Env \<times> ExecutionContext) list \<Rightarrow> nat" where
  "setup_runs i a [] = 0"
| "setup_runs i a ((e, c) # rest) =
     (if initialized a then 0 else 1) + setup_runs i (snd (ensureInitialized i a e c)) rest"

fun failures ::
  "('h, 'st) init \<Rightarrow> ('h, 'st) McpAgent \<Rightarrow> (Env \<times> ExecutionContext) list \<Rightarrow> nat" where
  "failures i a [] = 0"
| "failures i a ((e, c) # rest) =
     (case fst (ensureInitialized i a e c) of Inl err \<Rightarrow> 1 | Inr ok \<Rightarrow> 0)
       + failures i (snd (ensureInitialized i a e c)) rest"

definition names_distinct :: "('h, 'st) McpAgent \<Rightarrow> bool" where
  "names_distinct a = distinct (map fst (tools a))"

text \<open>
  Two invocations of \<open>ensureInitialized\<close> on one agent, the second made while the
  first waits at its \<^verbatim>\<open>await\<close>. The first has stored its environment and called
  \<^verbatim>\<open>init\<close>; the second tests the flag on the agent as it is then; at the end both
  resume, the first before the second. The result is the outcome of the first, the
  outcome of the second and the agent they leave.
\<close>

definition interleaved ::
  "('h, 'st) init \<Rightarrow> ('h, 'st) McpAgent \<Rightarrow> Env \<Rightarrow> ExecutionContext \<Rightarrow> Env \<Rightarrow> ExecutionContext
     \<Rightarrow> unit result \<times> unit result \<times> ('h, 'st) McpAgent" where
  "interleaved i a e1 c1 e2 c2 =
     (case enter_init i a e1 c1 of
        (r1, a1) \<Rightarrow>
          if \<not> initialized a1 then
            (case enter_init i a1 e2 c2 of
               (r2, a2) \<Rightarrow>
                 (case resume_init r1 a2 of
                    (o1, a3) \<Rightarrow>
                      (case resume_init r2 a3 of (o2, a4) \<Rightarrow> (o1, o2, a4))))
          else
            (case resume_init r1 (a1\<lparr>env := Some e2, executionCtx := Some c2\<rparr>) of
               (o1, a3) \<Rightarrow> (o1, Inr (), a3)))"

subsection \<open>Entries of a configuration\<close>



subsection \<open>Configurations without tools\<close>


subsection \<open>Declared and extra properties\<close>

text \<open>The part of an argument object whose keys the shape of a validator declares.\<close>

definition declared :: "(string \<times> zod) list \<Rightarrow> (string \<times> jsval) list \<Rightarrow> (string \<times> jsval) list" where
  "declared shape ps = filter (\<lambda>(k, x). has_key shape k) ps"

subsection \<open>Example inputs\<close>

text \<open>An environment without configured tools, a configuration parser that rejects
  every string, a URL test that accepts every string, an agent whose \<^verbatim>\<open>init\<close>
  registers one tool without a schema, and requests to the split-channel endpoint
  mounted at \<^verbatim>\<open>/sse\<close>.\<close>

definition env_none :: Env where
  "env_none = \<lparr>MCP_REMOTE_TOOLS = None\<rparr>"

definition no_parse :: "string \<Rightarrow> json_data option" where
  "no_parse raw = None"

definition any_url :: "string \<Rightarrow> bool" where
  "any_url s = True"

definition ping_init :: "(string, unit) init" where
  "ping_init a =
     registerTool a
       \<lparr>def_name = ''ping'', def_description = ''Answer a ping'', def_schema = None,
        def_annotations = None, def_jsonSchemaOverride = None, def_handler = ''pong''\<rparr>"

definition builtin_names :: "string list" where
  "builtin_names = [''browser_render'', ''d1_query'', ''kv'', ''vectorize'', ''durable_task'']"

definition get_open :: Request where
  "get_open = \<lparr>req_method = ''GET'', req_pathname = ''/sse'', req_json = None\<rparr>"

definition post_to :: "string \<Rightarrow> jsval \<Rightarrow> Request" where
  "post_to ident b =
     \<lparr>req_method = ''POST'', req_pathname = ''/sse/'' @ ident, req_json = Some b\<rparr>"

definition delete_of :: "string \<Rightarrow> Request" where
  "delete_of ident =
     \<lparr>req_method = ''DELETE'', req_pathname = ''/sse/'' @ ident, req_json = None\<rparr>"


text \<open>The agent after one session is opened under the identifier \<^verbatim>\<open>s1\<close>.\<close>

definition a_open :: agent where
  "a_open = snd (handleSseRequest (init no_parse) ''s1'' new_MyMCP get_open env_none 0 ''/sse'')"


text \<open>A configuration whose one entry takes the name of a built-in tool.\<close>

definition clash_raw :: string where
  \<open>clash_raw = ''[{"name":"kv","description":"A second store","endpoint":"https://example.com/kv"}]''\<close>

definition clash_config :: RemoteToolConfig where
  "clash_config =
     \<lparr>cfg_name = Some ''kv'', cfg_description = Some ''A second store'',
      cfg_endpoint = Some ''https://example.com/kv'', cfg_method = None,
      cfg_headers = None, cfg_schema = None\<rparr>"

definition clash_parse :: "string \<Rightarrow> json_data option" where
  "clash_parse raw = (if raw = clash_raw then Some (ConfigArray [Some clash_config]) else None)"

definition clash_env :: Env where
  "clash_env = \<lparr>MCP_REMOTE_TOOLS = Some clash_raw\<rparr>"







text \<open>A configured tool with a required and an optional property, and arguments
  that carry two properties the configuration does not declare.\<close>

definition search_config :: RemoteToolConfig where
  "search_config =
     \<lparr>cfg_name = Some ''search'', cfg_description = None,
      cfg_endpoint = Some ''https://example.com/search'', cfg_method = None,
      cfg_headers = None,
      cfg_schema = Some [(''q'', RemoteToolField TString None None None None),
                         (''limit'', RemoteToolField TNumber None (Some True) None None)]\<rparr>"

definition search_args :: "(string \<times> jsval) list" where
  "search_args =
     [(''q'', JStr ''cats''), (''debug'', JBool True),
      (''trace'', JObj [(''id'', JNum (Fin 7))])]"

text \<open>The worker's agent configured with this tool and initialized, and the protocol
  server of a session of it.\<close>

definition search_parse :: "string \<Rightarrow> json_data option" where
  "search_parse raw = Some (ConfigArray [Some search_config])"

definition search_env :: Env where
  "search_env = \<lparr>MCP_REMOTE_TOOLS = Some ''[{...}]''\<rparr>"

definition a_search :: agent where
  "a_search = snd (ensureInitialized (init search_parse) new_MyMCP search_env 0)"

text \<open>The \<^verbatim>\<open>extra\<close> object of a request, as the protocol SDK hands it to a
  callback.\<close>

definition request_extra :: jsval where
  "request_extra = JObj [(''sessionId'', JStr ''s1''), (''requestId'', JNum (Fin 1))]"

text \<open>The agent with the one tool that has no schema, initialized.\<close>

definition a_ping :: "(string, unit) McpAgent" where
  "a_ping = snd (ensureInitialized ping_init (new_McpAgent ()) env_none 0)"

section \<open>Properties\<close>

subsection \<open>The tool registry\<close>

text \<open>
  Claim C1. Registering a definition under a name the registry already has fails with
  the duplicate-tool error and leaves the agent as it was. So of two definitions with
  one name, whichever is registered first stays: the second registration fails and the
  name still maps to the registration of the first.
\<close>

theorem registerTool_duplicate:
  "(has_key (tools a) (def_name d) \<longrightarrow>
      registerTool a d = (Inl (DuplicateTool (def_name d)), a))
   \<and> (\<not> has_key (tools a) (def_name d1) \<and> def_name d2 = def_name d1 \<longrightarrow>
        (\<exists>a1. registerTool a d1 = (Inr (), a1) \<and>
              registerTool a1 d2 = (Inl (DuplicateTool (def_name d1)), a1) \<and>
              map_of (tools a1) (def_name d1) = Some (registration d1)))"
  by (auto simp: registerTool_def has_key_def map_add_def)

theorem registerTool_duplicate_witness:
  "\<not> has_key (tools new_MyMCP) ''kv'' \<and>
   (\<exists>a1. registerTool new_MyMCP (static_tool ''kv'' ''first'' ZAny KvTool) = (Inr (), a1) \<and>
         registerTool a1 (static_tool ''kv'' ''second'' ZBoolean D1Query)
           = (Inl (DuplicateTool ''kv''), a1) \<and>
         map_of (tools a1) ''kv'' = Some (registration (static_tool ''kv'' ''first'' ZAny KvTool)))"
proof -
  have fresh: "\<not> has_key (tools new_MyMCP) (def_name (static_tool ''kv'' ''first'' ZAny KvTool)) \<and>
        def_name (static_tool ''kv'' ''second'' ZBoolean D1Query)
          = def_name (static_tool ''kv'' ''first'' ZAny KvTool)"
    by (simp add: new_MyMCP_def new_McpAgent_def has_key_def static_tool_def)
  have n: "def_name (static_tool ''kv'' ''first'' ZAny KvTool) = ''kv''"
    by (simp add: static_tool_def)
  show ?thesis
    using fresh registerTool_duplicate [THEN conjunct2, THEN mp, OF fresh]
    unfolding n by (rule conjI [OF conjunct1])
qed

subsection \<open>Transports\<close>

text \<open>
  Claim C8. On both transports \<^verbatim>\<open>start\<close> is idempotent: after one call, any number
  of further calls leaves the transport (its started flag and, for the socket
  transport, the listeners on the socket) as the first call left it.
\<close>

theorem start_idempotent:
  "(ws_start ^^ Suc n) t = ws_start t \<and> (sse_start ^^ Suc n) s = sse_start s"
  by (induction n) (simp_all add: ws_start_def sse_start_def)

subsection \<open>Objects\<close>

lemma insert_index_lookup:
  "\<not> has_key ps k \<Longrightarrow> map_of (insert_index n k v ps) = (map_of ps)(k \<mapsto> v)"
proof (induction ps)
  case Nil
  then show ?case by simp
next
  case (Cons p ps)
  obtain k' v' where p: "p = (k', v')" by (cases p)
  from Cons.prems p have ne: "k' \<noteq> k" and rest: "\<not> has_key ps k"
    by (auto simp: has_key_def split: if_splits)
  show ?case
    using Cons.IH [OF rest] p ne by (auto simp: fun_eq_iff split: option.splits)
qed

lemma replace_other:
  "x \<noteq> k \<Longrightarrow>
     map_of (map (\<lambda>(k', v'). if k' = k then (k, v) else (k', v')) ps) x = map_of ps x"
  by (induction ps) auto

lemma replace_same:
  "has_key ps k \<Longrightarrow>
     map_of (map (\<lambda>(k', v'). if k' = k then (k, v) else (k', v')) ps) k = Some v"
proof (induction ps)
  case Nil
  then show ?case by (simp add: has_key_def)
next
  case (Cons p ps)
  obtain k' v' where p: "p = (k', v')" by (cases p)
  show ?case
  proof (cases "k' = k")
    case True
    with p show ?thesis by simp
  next
    case False
    with Cons.prems p have "has_key ps k" by (simp add: has_key_def)
    from Cons.IH [OF this] p False show ?thesis by simp
  qed
qed

lemma replace_lookup:
  assumes "has_key ps k"
  shows "map_of (map (\<lambda>(k', v'). if k' = k then (k, v) else (k', v')) ps) = (map_of ps)(k \<mapsto> v)"
proof
  fix x
  show "map_of (map (\<lambda>(k', v'). if k' = k then (k, v) else (k', v')) ps) x
          = ((map_of ps)(k \<mapsto> v)) x"
    using replace_same [OF assms, of v] replace_other [of x k v ps] by (cases "x = k") simp_all
qed

lemma map_of_set_prop: "map_of (set_prop k v ps) = (map_of ps)(k \<mapsto> v)"
proof (cases "has_key ps k")
  case True
  then show ?thesis by (simp add: set_prop_def replace_lookup)
next
  case False
  show ?thesis
  proof (cases "array_index k")
    case None
    with False show ?thesis
      by (auto simp: set_prop_def fun_eq_iff map_add_def has_key_def split: option.splits)
  next
    case (Some n)
    with False show ?thesis by (simp add: set_prop_def insert_index_lookup)
  qed
qed

lemma map_of_foldl_set_prop:
  "map_of (foldl (\<lambda>obj (k, v). set_prop k v obj) acc es) = map_of acc ++ map_of (rev es)"
proof (induction es arbitrary: acc)
  case Nil
  then show ?case by simp
next
  case (Cons e es)
  obtain k v where e: "e = (k, v)" by (cases e)
  show ?case using Cons.IH [of "set_prop k v acc"] e
    by (simp add: map_of_set_prop map_add_def fun_eq_iff split: option.splits)
qed

lemma map_of_fromEntries: "map_of (fromEntries es) = map_of (rev es)"
  by (simp add: fromEntries_def map_of_foldl_set_prop)

lemma map_of_rev_distinct:
  assumes "distinct (map fst xs)"
  shows "map_of (rev xs) k = map_of xs k"
proof (cases "map_of xs k")
  case None
  then have "k \<notin> fst ` set (rev xs)" by (simp add: map_of_eq_None_iff)
  then have "map_of (rev xs) k = None" by (simp add: map_of_eq_None_iff)
  with None show ?thesis by simp
next
  case (Some v)
  then have "(k, v) \<in> set (rev xs)" by (auto dest: map_of_SomeD)
  moreover have "distinct (map fst (rev xs))" using assms by (simp add: rev_map [symmetric])
  ultimately have "map_of (rev xs) k = Some v" by simp
  with Some show ?thesis by simp
qed

lemma fst_fromEntries: "fst ` set (fromEntries es) = fst ` set es"
proof -
  have "dom (map_of (fromEntries es)) = dom (map_of (rev es))"
    by (simp only: map_of_fromEntries)
  then show ?thesis by (simp add: dom_map_of_conv_image_fst)
qed

text \<open>Keys that are no array indices stay in the order of their creation.\<close>

lemma set_prop_plain:
  "\<not> has_key ps k \<Longrightarrow> array_index k = None \<Longrightarrow> set_prop k v ps = ps @ [(k, v)]"
  by (simp add: set_prop_def)

lemma foldl_set_prop_plain:
  "distinct (map fst (acc @ es)) \<Longrightarrow> list_all (\<lambda>k. array_index k = None) (map fst es) \<Longrightarrow>
     foldl (\<lambda>obj (k, v). set_prop k v obj) acc es = acc @ es"
proof (induction es arbitrary: acc)
  case Nil
  then show ?case by simp
next
  case (Cons e es)
  obtain k v where e: "e = (k, v)" by (cases e)
  from Cons.prems e have fresh: "\<not> has_key acc k"
    by (auto simp: has_key_def map_of_eq_None_iff)
  from Cons.prems e have plain: "array_index k = None" by simp
  from Cons.prems e have d: "distinct (map fst ((acc @ [(k, v)]) @ es))" by auto
  from Cons.prems have r: "list_all (\<lambda>k. array_index k = None) (map fst es)" by simp
  show ?case using Cons.IH [OF d r] fresh plain e by (simp add: set_prop_plain)
qed

lemma fromEntries_plain:
  "distinct (map fst es) \<Longrightarrow> list_all (\<lambda>k. array_index k = None) (map fst es) \<Longrightarrow>
     fromEntries es = es"
  using foldl_set_prop_plain [of "[]" es] by (simp add: fromEntries_def)

lemma not_digit_plain: "digit_of c = None \<Longrightarrow> array_index (c # cs) = None"
  by (simp add: array_index_def)

lemma map_fst_retag: "map fst (map (\<lambda>(k, v). (k, h v)) ps) = map fst ps"
  by (induction ps) auto

lemma map_of_retag: "map_of (map (\<lambda>(k, v). (k, h v)) ps) k = map_option h (map_of ps k)"
  by (induction ps) auto

lemma properties_lookup:
  assumes "distinct (map fst ps)"
  shows "map_of (fromEntries (map (\<lambda>(k, v). (k, h v)) ps)) k = map_option h (map_of ps k)"
proof -
  have "distinct (map fst (map (\<lambda>(k, v). (k, h v)) ps))"
    using assms by (simp only: map_fst_retag)
  then have "map_of (rev (map (\<lambda>(k, v). (k, h v)) ps)) k = map_of (map (\<lambda>(k, v). (k, h v)) ps) k"
    by (rule map_of_rev_distinct)
  then show ?thesis by (simp only: map_of_fromEntries map_of_retag)
qed

subsection \<open>The wire schema\<close>

lemma wf_field_props:
  "wf_field f \<Longrightarrow> distinct (map fst (prop_entries f))"
  by (cases f) (auto simp: prop_entries_def split: option.splits)

lemma wf_field_child:
  "wf_field f \<Longrightarrow> map_of (prop_entries f) k = Some g \<Longrightarrow> wf_field g"
  by (cases f) (auto simp: prop_entries_def split: option.splits dest!: map_of_SomeD)

lemma wf_field_items: "wf_field f \<Longrightarrow> fitems f = Some g \<Longrightarrow> wf_field g"
  by (cases f) auto

lemma schema_properties:
  "ftype f = TObject \<Longrightarrow>
   obj_get (jsonSchemaFromField f) ''properties'' =
     Some (JObj (fromEntries (map (\<lambda>(k, v). (k, jsonSchemaFromField v)) (prop_entries f))))"
  by (cases f) (simp add: prop_entries_def)

lemma schema_properties_only:
  "obj_get (jsonSchemaFromField f) ''properties'' = Some ps \<Longrightarrow> ftype f = TObject"
  by (cases f; cases "ftype f") auto

lemma schema_items:
  "ftype f = TArray \<Longrightarrow>
   obj_get (jsonSchemaFromField f) ''items'' =
     Some (case fitems f of Some i \<Rightarrow> jsonSchemaFromField i | None \<Rightarrow> JObj [])"
  by (cases f) simp

lemma schema_items_only:
  "obj_get (jsonSchemaFromField f) ''items'' = Some ps \<Longrightarrow> ftype f = TArray"
  by (cases f; cases "ftype f") auto

lemma schema_type_object:
  "obj_get (jsonSchemaFromField f) ''type'' = Some (JStr ''object'') \<longleftrightarrow> ftype f = TObject"
  by (cases f; cases "ftype f") auto

lemma schema_required:
  "ftype f = TObject \<Longrightarrow>
   obj_get (jsonSchemaFromField f) ''required'' =
     Some (JArr (map JStr (required_keys (prop_entries f))))"
  by (cases f) (simp add: prop_entries_def)

lemma wf_field_at: "wf_field f \<Longrightarrow> field_at f p = Some g \<Longrightarrow> wf_field g"
proof (induction p arbitrary: f)
  case Nil
  then show ?case by simp
next
  case (Cons st p)
  then show ?case
    by (cases st) (auto split: if_splits option.splits intro: wf_field_child wf_field_items)
qed

lemma field_to_schema:
  "wf_field f \<Longrightarrow> field_at f p = Some g \<Longrightarrow>
     schema_at (jsonSchemaFromField f) p = Some (jsonSchemaFromField g)"
proof (induction p arbitrary: f)
  case Nil
  then show ?case by simp
next
  case (Cons st p)
  show ?case
  proof (cases st)
    case (Prop k)
    with Cons.prems obtain h where obj: "ftype f = TObject"
      and h: "map_of (prop_entries f) k = Some h" and at: "field_at h p = Some g"
      by (auto split: if_splits option.splits)
    have "wf_field h" using Cons.prems(1) h by (rule wf_field_child)
    from Cons.IH [OF this at] show ?thesis
      using Prop obj h wf_field_props [OF Cons.prems(1)]
      by (simp add: schema_properties properties_lookup)
  next
    case Items
    with Cons.prems obtain h where arr: "ftype f = TArray"
      and h: "fitems f = Some h" and at: "field_at h p = Some g"
      by (auto split: if_splits option.splits)
    have "wf_field h" using Cons.prems(1) h by (rule wf_field_items)
    from Cons.IH [OF this at] show ?thesis
      using Items arr h by (simp add: schema_items)
  qed
qed

lemma schema_at_empty: "schema_at (JObj []) p = Some s \<Longrightarrow> p = [] \<and> s = JObj []"
proof (cases p)
  case Nil
  then show "schema_at (JObj []) p = Some s \<Longrightarrow> ?thesis" by simp
next
  case (Cons st q)
  then show "schema_at (JObj []) p = Some s \<Longrightarrow> ?thesis" by (cases st) auto
qed

lemma schema_to_field:
  "wf_field f \<Longrightarrow> schema_at (jsonSchemaFromField f) p = Some s \<Longrightarrow>
   obj_get s ''type'' = Some (JStr ''object'') \<Longrightarrow>
     \<exists>g. field_at f p = Some g \<and> s = jsonSchemaFromField g"
proof (induction p arbitrary: f)
  case Nil
  then show ?case by simp
next
  case (Cons st p)
  show ?case
  proof (cases st)
    case (Prop k)
    with Cons.prems(2) obtain ps s' where ps: "obj_get (jsonSchemaFromField f) ''properties'' = Some ps"
      and s': "obj_get ps k = Some s'" and at: "schema_at s' p = Some s"
      by (auto split: option.splits)
    have obj: "ftype f = TObject" using ps by (rule schema_properties_only)
    from ps s' obj wf_field_props [OF Cons.prems(1)]
    obtain h where h: "map_of (prop_entries f) k = Some h" and s'h: "s' = jsonSchemaFromField h"
      by (auto simp: schema_properties properties_lookup)
    have "wf_field h" using Cons.prems(1) h by (rule wf_field_child)
    from Cons.IH [OF this at [unfolded s'h] Cons.prems(3)] show ?thesis
      using Prop obj h by simp
  next
    case Items
    with Cons.prems(2) obtain s' where it: "obj_get (jsonSchemaFromField f) ''items'' = Some s'"
      and at: "schema_at s' p = Some s"
      by (auto split: option.splits)
    have arr: "ftype f = TArray" using it by (rule schema_items_only)
    show ?thesis
    proof (cases "fitems f")
      case None
      with it arr have "s' = JObj []" by (simp add: schema_items)
      with at have "s = JObj []" using schema_at_empty by blast
      with Cons.prems(3) show ?thesis by simp
    next
      case (Some h)
      with it arr have s'h: "s' = jsonSchemaFromField h" by (simp add: schema_items)
      have "wf_field h" using Cons.prems(1) Some by (rule wf_field_items)
      from Cons.IH [OF this at [unfolded s'h] Cons.prems(3)] show ?thesis
        using Items arr Some by simp
    qed
  qed
qed


lemma required_keys_set:
  "distinct (map fst ps) \<Longrightarrow>
     set (required_keys ps) = {k. \<exists>v. map_of ps k = Some v \<and> \<not> is_optional v}"
  by (auto simp: required_keys_def image_iff)

lemma remote_root_get:
  "k \<in> {''type'', ''properties'', ''required'', ''items''} \<Longrightarrow>
     obj_get (remote_jsonSchema cfg) k = obj_get (jsonSchemaFromField (root_field cfg)) k"
  by (auto simp: remote_jsonSchema_def root_field_def entries_of_def)

lemma remote_root_at:
  "p \<noteq> [] \<Longrightarrow>
     schema_at (remote_jsonSchema cfg) p = schema_at (jsonSchemaFromField (root_field cfg)) p"
proof (cases p)
  case Nil
  then show "p \<noteq> [] \<Longrightarrow> ?thesis" by simp
next
  case (Cons st q)
  then show "p \<noteq> [] \<Longrightarrow> ?thesis" by (cases st) (simp_all add: remote_root_get)
qed

lemma remote_document_levels:
  assumes "wf_field (root_field cfg)"
  shows "\<exists>ks. obj_get (remote_jsonSchema cfg) ''required'' = Some (JArr (map JStr ks)) \<and>
              set ks = {k. \<exists>v. map_of (entries_of (cfg_schema cfg)) k = Some v \<and> \<not> is_optional v}"
proof -
  have "distinct (map fst (entries_of (cfg_schema cfg)))"
    using wf_field_props [OF assms] by (simp add: root_field_def prop_entries_def entries_of_def)
  then have "set (required_keys (entries_of (cfg_schema cfg))) =
          {k. \<exists>v. map_of (entries_of (cfg_schema cfg)) k = Some v \<and> \<not> is_optional v}"
    by (rule required_keys_set)
  then show ?thesis by (auto simp: remote_jsonSchema_def)
qed

text \<open>
  Claim C2. For every field tree whose records have pairwise different keys (as every
  JavaScript object has), the document that \<open>jsonSchemaFromField\<close> derives has, at
  every level of type \<^verbatim>\<open>object\<close>, at any depth, a \<^verbatim>\<open>required\<close> list whose entries
  are exactly the names of the properties of the field at that level that are not
  marked optional; and every object level of the field tree is such a level of the
  document.
\<close>

theorem required_exact_at_every_level:
  assumes "wf_field f"
  shows "(schema_at (jsonSchemaFromField f) p = Some s \<and>
            obj_get s ''type'' = Some (JStr ''object'') \<longrightarrow>
          (\<exists>g ks. field_at f p = Some g \<and> ftype g = TObject \<and>
                  obj_get s ''required'' = Some (JArr (map JStr ks)) \<and>
                  set ks = {k. \<exists>v. map_of (prop_entries g) k = Some v \<and> \<not> is_optional v}))
       \<and> (field_at f p = Some g \<and> ftype g = TObject \<longrightarrow>
          (\<exists>s ks. schema_at (jsonSchemaFromField f) p = Some s \<and>
                  obj_get s ''type'' = Some (JStr ''object'') \<and>
                  obj_get s ''required'' = Some (JArr (map JStr ks)) \<and>
                  set ks = {k. \<exists>v. map_of (prop_entries g) k = Some v \<and> \<not> is_optional v}))"
proof (intro conjI impI)
  assume a: "schema_at (jsonSchemaFromField f) p = Some s \<and>
             obj_get s ''type'' = Some (JStr ''object'')"
  then obtain h where h: "field_at f p = Some h" and s: "s = jsonSchemaFromField h"
    using schema_to_field [OF assms] by blast
  have obj: "ftype h = TObject" using a s by (simp add: schema_type_object)
  have wf: "wf_field h" using assms h by (rule wf_field_at)
  have "set (required_keys (prop_entries h)) =
          {k. \<exists>v. map_of (prop_entries h) k = Some v \<and> \<not> is_optional v}"
    using wf_field_props [OF wf] by (rule required_keys_set)
  with h s obj show "\<exists>g ks. field_at f p = Some g \<and> ftype g = TObject \<and>
                  obj_get s ''required'' = Some (JArr (map JStr ks)) \<and>
                  set ks = {k. \<exists>v. map_of (prop_entries g) k = Some v \<and> \<not> is_optional v}"
    using schema_required [OF obj] by blast
next
  assume a: "field_at f p = Some g \<and> ftype g = TObject"
  then have at: "schema_at (jsonSchemaFromField f) p = Some (jsonSchemaFromField g)"
    using field_to_schema [OF assms] by blast
  have wf: "wf_field g" using assms a by (blast intro: wf_field_at)
  have "set (required_keys (prop_entries g)) =
          {k. \<exists>v. map_of (prop_entries g) k = Some v \<and> \<not> is_optional v}"
    using wf_field_props [OF wf] by (rule required_keys_set)
  with at a show "\<exists>s ks. schema_at (jsonSchemaFromField f) p = Some s \<and>
                  obj_get s ''type'' = Some (JStr ''object'') \<and>
                  obj_get s ''required'' = Some (JArr (map JStr ks)) \<and>
                  set ks = {k. \<exists>v. map_of (prop_entries g) k = Some v \<and> \<not> is_optional v}"
    using schema_required [of g] schema_type_object [of g] by blast
qed


theorem required_exact_at_every_level_witness:
  "wf_field f0 \<and>
   (\<exists>g ks. field_at f0 [Prop ''c'', Items] = Some g \<and> ftype g = TObject \<and>
           obj_get (jsonSchemaFromField f0_inner) ''required'' = Some (JArr (map JStr ks)) \<and>
           set ks = {k. \<exists>v. map_of (prop_entries g) k = Some v \<and> \<not> is_optional v})"
proof -
  have w: "wf_field f0"
    by (simp add: f0_def f0_inner_def)
  have a: "schema_at (jsonSchemaFromField f0) [Prop ''c'', Items] = Some (jsonSchemaFromField f0_inner) \<and>
           obj_get (jsonSchemaFromField f0_inner) ''type'' = Some (JStr ''object'')"
    by (simp add: f0_def f0_inner_def fromEntries_plain not_digit_plain digit_of_def)
  show ?thesis
    using w required_exact_at_every_level [OF w, THEN conjunct1, THEN mp, OF a]
    by (rule conjI)
qed

subsection \<open>Invocation\<close>

lemma ensureInitialized_alt:
  "ensureInitialized i a e c =
     (if \<not> initialized a then
        (case i (a\<lparr>env := Some e, executionCtx := Some c\<rparr>) of
           (Inl err, a') \<Rightarrow> (Inl err, a')
         | (Inr ok, a') \<Rightarrow> (Inr (), a'\<lparr>initialized := True\<rparr>))
      else (Inr (), a\<lparr>env := Some e, executionCtx := Some c\<rparr>))"
  by (simp add: ensureInitialized_def enter_init_def resume_init_def
      split: prod.splits sum.splits)

lemma registerTool_fresh:
  "\<not> has_key (tools a) (def_name d) \<Longrightarrow>
     registerTool a d = (Inr (), a\<lparr>tools := tools a @ [(def_name d, registration d)]\<rparr>)"
  by (simp add: registerTool_def)

lemma init_no_config:
  assumes "tools a = []" "env a = Some e" "MCP_REMOTE_TOOLS e = None"
  shows "\<exists>a'. init P a = (Inr (), a') \<and> map fst (tools a') = builtin_names \<and>
              state a' = state a \<and> notified a' = notified a \<and> sseSessions a' = sseSessions a
              \<and> initialized a' = initialized a"
  using assms
  by (simp add: init_def and_then_def registerBrowserTool_def registerD1Tool_def
      registerKvTool_def registerVectorizeTool_def registerDurableTool_def
      registerTool_def has_key_def static_tool_def registerRemoteTools_def builtin_names_def)

lemma ensure_fresh_MyMCP:
  "\<exists>a'. ensureInitialized (init P) new_MyMCP env_none c = (Inr (), a') \<and>
        map fst (tools a') = builtin_names \<and> sseSessions a' = Map.empty \<and> initialized a'"
proof -
  let ?a = "new_MyMCP\<lparr>env := Some env_none, executionCtx := Some c\<rparr>"
  have "\<exists>a'. init P ?a = (Inr (), a') \<and> map fst (tools a') = builtin_names \<and>
              state a' = state ?a \<and> notified a' = notified ?a \<and> sseSessions a' = sseSessions ?a
              \<and> initialized a' = initialized ?a"
    by (rule init_no_config [where e = env_none])
       (simp_all add: new_MyMCP_def new_McpAgent_def env_none_def)
  then obtain a' where "init P ?a = (Inr (), a')" "map fst (tools a') = builtin_names"
     "sseSessions a' = sseSessions ?a" by blast
  then show ?thesis
    by (simp add: ensureInitialized_alt new_MyMCP_def new_McpAgent_def)
qed

lemma registerTool_error:
  "registerTool a d = (Inl err, a') \<Longrightarrow> err = DuplicateTool (def_name d) \<and> a' = a"
  by (auto simp: registerTool_def split: if_splits)

lemma register_entries_error:
  "register_entries a r cs = (Inl err, a') \<Longrightarrow> \<exists>n. err = DuplicateTool n"
proof (induction cs arbitrary: a r)
  case Nil
  then show ?case by simp
next
  case (Cons c cs)
  then show ?case
    by (auto split: option.splits prod.splits sum.splits dest: registerTool_error)
qed

lemma registerRemoteTools_error:
  "registerRemoteTools P a = (Inl err, a') \<Longrightarrow> err = TypeError \<or> (\<exists>n. err = DuplicateTool n)"
  by (auto simp: registerRemoteTools_def
      split: option.splits if_splits prod.splits sum.splits dest: register_entries_error)

lemma and_then_error:
  "and_then r f = (Inl err, s') \<Longrightarrow> r = (Inl err, s') \<or> (\<exists>s. f s = (Inl err, s'))"
  by (auto simp: and_then_def split: prod.splits sum.splits)

lemma init_error:
  "init P a = (Inl err, a') \<Longrightarrow> err = TypeError \<or> (\<exists>n. err = DuplicateTool n)"
  unfolding init_def registerBrowserTool_def registerD1Tool_def registerKvTool_def
    registerVectorizeTool_def registerDurableTool_def
  by (blast dest: and_then_error registerTool_error registerRemoteTools_error)

lemma ensureInitialized_error:
  "ensureInitialized i a e c = (Inl err, a') \<Longrightarrow>
     i (a\<lparr>env := Some e, executionCtx := Some c\<rparr>) = (Inl err, a')"
  by (auto simp: ensureInitialized_alt split: if_splits prod.splits sum.splits)

text \<open>
  Claim C4, as the code has it. \<open>invokeTool\<close> runs the initializer first. When the
  initializer completes and the name is not in the registry, \<open>invokeTool\<close> fails
  with the not-found error, whatever the arguments. For a name that is not registered
  the outcome does not depend on the arguments or on the validation runtime, so no
  validation takes part in it; and with the \<open>init\<close> of the worker's agent the
  outcome is never a validation error, also when \<open>init\<close> itself fails. When the
  initializer fails, \<open>invokeTool\<close> fails with the error of the initializer, for
  every name.
\<close>

theorem invokeTool_unknown_name:
  "(ensureInitialized i a e c = (Inr (), a') \<and> map_of (tools a') n = None \<longrightarrow>
      invokeTool u i a n args e c = (Inl (ToolNotFound n), a'))
   \<and> (map_of (tools (snd (ensureInitialized i a e c))) n = None \<longrightarrow>
        invokeTool u i a n args e c = invokeTool u' i a n args' e c)
   \<and> (map_of (tools (snd (ensureInitialized (init P) b e c))) n = None \<longrightarrow>
        fst (invokeTool u (init P) b n args e c) \<noteq> Inl (ValidationError errs))
   \<and> (ensureInitialized i a e c = (Inl err, a') \<longrightarrow>
        invokeTool u i a n args e c = (Inl err, a'))"
proof (intro conjI impI)
  assume "ensureInitialized i a e c = (Inl err, a')"
  then show "invokeTool u i a n args e c = (Inl err, a')"
    by (simp add: invokeTool_def)
next
  assume "ensureInitialized i a e c = (Inr (), a') \<and> map_of (tools a') n = None"
  then show "invokeTool u i a n args e c = (Inl (ToolNotFound n), a')"
    by (simp add: invokeTool_def)
next
  assume unknown: "map_of (tools (snd (ensureInitialized i a e c))) n = None"
  show "invokeTool u i a n args e c = invokeTool u' i a n args' e c"
  proof (cases "ensureInitialized i a e c")
    case (Pair r a1)
    with unknown show ?thesis by (cases r) (simp_all add: invokeTool_def)
  qed
next
  assume unknown: "map_of (tools (snd (ensureInitialized (init P) b e c))) n = None"
  show "fst (invokeTool u (init P) b n args e c) \<noteq> Inl (ValidationError errs)"
  proof (cases "ensureInitialized (init P) b e c")
    case (Pair r b')
    show ?thesis
    proof (cases r)
      case (Inl err)
      with Pair have "err = TypeError \<or> (\<exists>n. err = DuplicateTool n)"
        by (blast dest: ensureInitialized_error init_error)
      with Pair Inl show ?thesis by (auto simp: invokeTool_def)
    next
      case (Inr x)
      with Pair unknown show ?thesis by (simp add: invokeTool_def)
    qed
  qed
qed

lemma map_of_None_names: "n \<notin> set (map fst ps) \<Longrightarrow> map_of ps n = None"
  by (simp add: map_of_eq_None_iff)

theorem invokeTool_unknown_name_witness:
  "fst (invokeTool any_url (init no_parse) new_MyMCP ''missing-tool'' (JObj []) env_none 0)
     = Inl (ToolNotFound ''missing-tool'')"
proof -
  obtain a' where a': "ensureInitialized (init no_parse) new_MyMCP env_none 0 = (Inr (), a')"
    and names: "map fst (tools a') = builtin_names"
    using ensure_fresh_MyMCP by blast
  have "''missing-tool'' \<notin> set (map fst (tools a'))"
    unfolding names by (simp add: builtin_names_def)
  then have "map_of (tools a') ''missing-tool'' = None" by (rule map_of_None_names)
  with a' have h: "ensureInitialized (init no_parse) new_MyMCP env_none 0 = (Inr (), a') \<and>
       map_of (tools a') ''missing-tool'' = None" by simp
  have "invokeTool any_url (init no_parse) new_MyMCP ''missing-tool'' (JObj []) env_none 0
          = (Inl (ToolNotFound ''missing-tool''), a')"
    by (rule invokeTool_unknown_name [THEN conjunct1, THEN mp, OF h])
  then show ?thesis by simp
qed

lemma clash_first:
  "\<exists>a1. ensureInitialized (init clash_parse) new_MyMCP clash_env 0 = (Inl (DuplicateTool ''kv''), a1)
        \<and> map fst (tools a1) = builtin_names \<and> \<not> initialized a1"
  by (simp add: ensureInitialized_alt new_MyMCP_def new_McpAgent_def clash_env_def
      init_def and_then_def registerBrowserTool_def registerD1Tool_def
      registerKvTool_def registerVectorizeTool_def registerDurableTool_def
      registerTool_def has_key_def static_tool_def registerRemoteTools_def builtin_names_def
      clash_parse_def clash_config_def usable_def remote_tool_def clash_raw_def)

text \<open>
  The claim C4 says that an unknown name is always reported as not found. When the
  initializer fails, \<open>invokeTool\<close> reports that failure instead: with a configured
  tool named like a built-in one, a name that is not registered is answered with the
  duplicate-tool error.
\<close>

theorem unknown_name_after_failed_init:
  "fst (invokeTool any_url (init clash_parse) new_MyMCP ''missing-tool'' (JObj []) clash_env 0)
     = Inl (DuplicateTool ''kv'') \<and>
   map_of (tools (snd (invokeTool any_url (init clash_parse) new_MyMCP ''missing-tool''
     (JObj []) clash_env 0))) ''missing-tool'' = None"
proof -
  obtain a1 where a1: "ensureInitialized (init clash_parse) new_MyMCP clash_env 0
      = (Inl (DuplicateTool ''kv''), a1)"
    and names: "map fst (tools a1) = builtin_names"
    using clash_first by blast
  have "''missing-tool'' \<notin> set (map fst (tools a1))"
    unfolding names by (simp add: builtin_names_def)
  then have "map_of (tools a1) ''missing-tool'' = None" by (rule map_of_None_names)
  with a1 show ?thesis by (simp add: invokeTool_def)
qed

lemma coalesce_empty:
  "coalesce args (JObj []) = (if args = JUndefined \<or> args = JNull then JObj [] else args)"
  by (cases args) (simp_all add: coalesce_def)

text \<open>
  A tool registered without a schema, on the direct path: once the initializer has
  completed, \<open>invokeTool\<close> reaches the handler with the argument object as given
  (also when it is empty or has any fields), and with the empty object when the
  argument is \<^verbatim>\<open>undefined\<close> or \<^verbatim>\<open>null\<close>. The callback bound to the tool
  does the same with what it is called with as \<^verbatim>\<open>args\<close>.
\<close>

lemma no_schema_direct:
  "(ensureInitialized i a e c = (Inr (), a') \<and> map_of (tools a') n = Some tool \<and>
    tool_schema tool = None \<longrightarrow>
      invokeTool u i a n args e c =
        (Inr \<lparr>call_handler = tool_handler tool,
              call_args = (if args = JUndefined \<or> args = JNull then JObj [] else args),
              call_env = env a', call_state = state a',
              call_executionCtx = executionCtx a', call_extra = JUndefined\<rparr>, a'))
   \<and> (tool_schema tool = None \<longrightarrow>
        toolCallback u a tool e c args extra =
          Inr \<lparr>call_handler = tool_handler tool,
               call_args = (if args = JUndefined \<or> args = JNull then JObj [] else args),
               call_env = Some e, call_state = state a, call_executionCtx = Some c,
               call_extra = extra\<rparr>)"
  by (simp add: invokeTool_def toolCallback_def coalesce_empty)

lemma a_ping_tools:
  "tools a_ping =
     [(''ping'', \<lparr>tool_name = ''ping'', tool_description = ''Answer a ping'',
                  tool_schema = None, tool_annotations = None, tool_handler = ''pong'',
                  tool_jsonSchema = None\<rparr>)] \<and>
   initialized a_ping \<and> state a_ping = ()"
  by (simp add: a_ping_def ensureInitialized_alt ping_init_def registerTool_def has_key_def
      new_McpAgent_def registration_def)

text \<open>
  Claim C7 fails for a call that comes in over a session. \<^verbatim>\<open>createServer\<close>
  registers a tool without a schema with no input schema, so the protocol SDK calls
  the callback with the \<^verbatim>\<open>extra\<close> object of the request alone; the callback takes
  it for the arguments. The arguments the client sent do not reach the handler: it is
  called with the \<^verbatim>\<open>extra\<close> object as its arguments. On the direct path the
  same arguments reach the handler unchanged.
\<close>

theorem session_call_without_schema:
  "callTool any_url a_ping (createServer a_ping) env_none 0 ''ping''
     (JObj [(''extra'', JNum (Fin 1)), (''more'', JStr ''x'')]) request_extra
     = Inr \<lparr>call_handler = ''pong'', call_args = request_extra,
            call_env = Some env_none, call_state = (), call_executionCtx = Some 0,
            call_extra = JUndefined\<rparr> \<and>
   request_extra \<noteq> JObj [(''extra'', JNum (Fin 1)), (''more'', JStr ''x'')] \<and>
   fst (invokeTool any_url ping_init a_ping ''ping''
     (JObj [(''extra'', JNum (Fin 1)), (''more'', JStr ''x'')]) env_none 0)
     = Inr \<lparr>call_handler = ''pong'',
            call_args = JObj [(''extra'', JNum (Fin 1)), (''more'', JStr ''x'')],
            call_env = Some env_none, call_state = (), call_executionCtx = Some 0,
            call_extra = JUndefined\<rparr>"
proof -
  have r: "request_extra \<noteq> JUndefined" "request_extra \<noteq> JNull"
    "request_extra \<noteq> JObj [(''extra'', JNum (Fin 1)), (''more'', JStr ''x'')]"
    by (simp_all add: request_extra_def)
  have 1: "callTool any_url a_ping (createServer a_ping) env_none 0 ''ping''
     (JObj [(''extra'', JNum (Fin 1)), (''more'', JStr ''x'')]) request_extra
     = Inr \<lparr>call_handler = ''pong'', call_args = request_extra,
            call_env = Some env_none, call_state = (), call_executionCtx = Some 0,
            call_extra = JUndefined\<rparr>"
    using r by (simp add: callTool_def createServer_def a_ping_tools toolCallback_def
        coalesce_empty)
  have 2: "fst (invokeTool any_url ping_init a_ping ''ping''
     (JObj [(''extra'', JNum (Fin 1)), (''more'', JStr ''x'')]) env_none 0)
     = Inr \<lparr>call_handler = ''pong'',
            call_args = JObj [(''extra'', JNum (Fin 1)), (''more'', JStr ''x'')],
            call_env = Some env_none, call_state = (), call_executionCtx = Some 0,
            call_extra = JUndefined\<rparr>"
    by (simp add: invokeTool_def ensureInitialized_alt a_ping_tools coalesce_empty)
  from 1 r(3) 2 show ?thesis by simp
qed

subsection \<open>Split-channel sessions\<close>

lemma foldl_receive:
  "sse_onmessage t \<Longrightarrow> foldl receive t ms = t\<lparr>sse_delivered := sse_delivered t @ ms\<rparr>"
  by (induction ms arbitrary: t) (simp_all add: receive_def)

lemma sessionId_open: "sessionId_of ''/sse'' ''/sse'' = []"
  by (simp add: sessionId_of_def)

lemma open_session_attached: "sse_onmessage (sess_transport (open_session ident))"
  by (simp add: open_session_def connect_def sse_start_def new_WorkerSseTransport_def)

lemma receive_attached: "sse_onmessage (receive t m) = sse_onmessage t"
  by (simp add: receive_def)

text \<open>
  Claim C6. A POST to a registered session with a JSON body that is an array calls
  \<^verbatim>\<open>receive\<close> on the transport of the session once for each element, in array order;
  a body that is not an array is received as one message. With the inbound callback
  attached, as it is on every session the endpoint opens, exactly these messages are
  handed to the callback, in this order, after what was delivered before. The response
  is 200 with \<^verbatim>\<open>{ok:true}\<close>, and no other session changes.
\<close>

theorem post_delivers_in_order:
  "sseSessions a sid = Some session \<and>
   sessionId_of endpoint (req_pathname r) = sid \<and> sid \<noteq> [] \<and>
   req_method r = ''POST'' \<and> req_json r = Some b \<longrightarrow>
     (\<exists>a' session'.
        handleSseRequest i uuid a r e c endpoint = (Inr delivered_ok, a') \<and>
        sseSessions a' sid = Some session' \<and>
        sess_transport session' =
          foldl receive (sess_transport session) (case b of JArr ms \<Rightarrow> ms | _ \<Rightarrow> [b]) \<and>
        (sse_onmessage (sess_transport session) \<longrightarrow>
           sse_delivered (sess_transport session') =
             sse_delivered (sess_transport session) @ (case b of JArr ms \<Rightarrow> ms | _ \<Rightarrow> [b])) \<and>
        (\<forall>other. other \<noteq> sid \<longrightarrow> sseSessions a' other = sseSessions a other))"
  by (auto simp: handleSseRequest_def delivered_ok_def deliver_def messages_of_def foldl_receive
      new_Response_def has_key_def)

lemma a_open_session: "sseSessions a_open ''s1'' = Some (open_session ''s1'')"
proof -
  obtain a' where a': "ensureInitialized (init no_parse) new_MyMCP env_none 0 = (Inr (), a')"
    using ensure_fresh_MyMCP by blast
  then show ?thesis
    by (simp add: a_open_def handleSseRequest_def get_open_def sessionId_open)
qed

theorem post_delivers_in_order_witness:
  "\<exists>a' session'.
     handleSseRequest (init no_parse) ''s2'' a_open
       (post_to ''s1'' (JArr [JStr ''m1'', JStr ''m2'', JStr ''m3''])) env_none 0 ''/sse''
       = (Inr delivered_ok, a') \<and>
     sseSessions a' ''s1'' = Some session' \<and>
     sse_delivered (sess_transport session') = [JStr ''m1'', JStr ''m2'', JStr ''m3'']"
proof -
  let ?r = "post_to ''s1'' (JArr [JStr ''m1'', JStr ''m2'', JStr ''m3''])"
  have h: "sseSessions a_open ''s1'' = Some (open_session ''s1'') \<and>
     sessionId_of ''/sse'' (req_pathname ?r) = ''s1'' \<and> ''s1'' \<noteq> [] \<and>
     req_method ?r = ''POST'' \<and>
     req_json ?r = Some (JArr [JStr ''m1'', JStr ''m2'', JStr ''m3''])"
    by (simp add: a_open_session post_to_def sessionId_of_def)
  have d: "sse_delivered (sess_transport (open_session ''s1'')) = []"
    by (simp add: open_session_def connect_def sse_start_def new_WorkerSseTransport_def)
  from post_delivers_in_order [THEN mp, OF h, of "init no_parse" "''s2''" env_none 0]
  show ?thesis using open_session_attached [of "''s1''"] unfolding d by auto
qed

lemma untouched_refl: "untouched a a"
  by (simp add: untouched_def)

lemma untouched_trans: "untouched a b \<Longrightarrow> untouched b c \<Longrightarrow> untouched a c"
  by (simp add: untouched_def)

lemma registerTool_untouched: "untouched a (snd (registerTool a d))"
  by (simp add: untouched_def registerTool_def)

lemma register_entries_untouched: "untouched a (snd (register_entries a r cs))"
proof (induction cs arbitrary: a r)
  case Nil
  then show ?case by (simp add: untouched_refl)
next
  case (Cons c cs)
  show ?case
  proof (cases "usable c")
    case None
    then show ?thesis using Cons.IH by simp
  next
    case (Some t)
    obtain n ep cfg where t: "t = (n, ep, cfg)" by (cases t)
    obtain x a1 where reg: "registerTool a (remote_tool n ep cfg) = (x, a1)"
      by (cases "registerTool a (remote_tool n ep cfg)")
    have u1: "untouched a a1" using registerTool_untouched [of a "remote_tool n ep cfg"] reg by simp
    show ?thesis
    proof (cases x)
      case (Inl err)
      with Some t reg u1 show ?thesis by simp
    next
      case (Inr y)
      with Some t reg have "snd (register_entries a r (c # cs)) = snd (register_entries a1 (r @ [n]) cs)"
        by simp
      with u1 Cons.IH [of a1 "r @ [n]"] show ?thesis by (simp add: untouched_trans)
    qed
  qed
qed

lemma registerRemoteTools_untouched: "untouched a (snd (registerRemoteTools P a))"
proof -
  have "untouched a (snd (register_entries a [] cs))" for cs
    by (rule register_entries_untouched)
  then have "\<And>cs x a'. register_entries a [] cs = (x, a') \<Longrightarrow> untouched a a'"
    by (metis snd_conv)
  then show ?thesis
    by (auto simp: registerRemoteTools_def untouched_refl setState_def
        split: option.splits prod.splits sum.splits json_data.splits)
      (auto simp: untouched_def)
qed

lemma and_then_untouched:
  assumes "untouched a (snd r)" "\<And>s. untouched s (snd (f s))"
  shows "untouched a (snd (and_then r f))"
proof (cases r)
  case (Pair x s)
  show ?thesis
  proof (cases x)
    case (Inl err)
    with Pair assms(1) show ?thesis by (simp add: and_then_def)
  next
    case (Inr y)
    with Pair have "and_then r f = f s" by (simp add: and_then_def)
    with Pair assms(1) assms(2) [of s] show ?thesis by (simp add: untouched_trans)
  qed
qed

lemma init_untouched: "untouched a (snd (init P a))"
  unfolding init_def registerBrowserTool_def registerD1Tool_def registerKvTool_def
    registerVectorizeTool_def registerDurableTool_def
  by (intro and_then_untouched registerTool_untouched registerRemoteTools_untouched)

lemma ensureInitialized_sessions:
  "sseSessions (snd (ensureInitialized (init P) a e c)) = sseSessions a"
proof -
  let ?b = "a\<lparr>env := Some e, executionCtx := Some c\<rparr>"
  have "untouched ?b (snd (init P ?b))" by (rule init_untouched)
  then have "sseSessions (snd (init P ?b)) = sseSessions a" by (simp add: untouched_def)
  then show ?thesis
    by (auto simp: ensureInitialized_alt split: prod.splits sum.splits)
qed

lemma request_keeps_closed:
  assumes "sseSessions a sid = None" "uuid \<noteq> sid"
  shows "sseSessions (snd (handleSseRequest (init P) uuid a r e c endpoint)) sid = None"
proof -
  have "sseSessions (snd (ensureInitialized (init P) a e c)) sid = None"
    using assms(1) by (simp add: ensureInitialized_sessions)
  then show ?thesis
    using assms
    by (auto simp: handleSseRequest_def Let_def split: prod.splits sum.splits option.splits)
qed

lemma op_keeps_closed:
  assumes "sseSessions a sid = None" "\<not> issues op sid"
  shows "sseSessions (apply_op (init P) endpoint a op) sid = None"
proof (cases op)
  case (Req uuid r e c)
  with assms show ?thesis by (simp add: request_keeps_closed)
next
  case (Cancel ident)
  with assms show ?thesis by (simp add: stream_cancel_def split: option.splits)
qed

lemma ops_keep_closed:
  "sseSessions a sid = None \<Longrightarrow> \<forall>op \<in> set ops. \<not> issues op sid \<Longrightarrow>
     sseSessions (foldl (apply_op (init P) endpoint) a ops) sid = None"
  by (induction ops arbitrary: a) (simp_all add: op_keeps_closed)

lemma lookup_not_found:
  "sseSessions a sid = None \<Longrightarrow> sessionId_of endpoint (req_pathname r) = sid \<Longrightarrow> sid \<noteq> [] \<Longrightarrow>
     handleSseRequest i uuid a r e c endpoint = (Inr not_found, a)"
  by (simp add: handleSseRequest_def not_found_def new_Response_def has_key_def)

lemma open_session_live:
  "sess_id (open_session ident) = ident \<and> \<not> sess_stream_closed (open_session ident) \<and>
   sess_heartbeat (open_session ident) \<and> sess_server_open (open_session ident)"
  by (simp add: open_session_def)

lemma deliver_live:
  "sess_id (deliver s ms) = sess_id s \<and> sess_stream_closed (deliver s ms) = sess_stream_closed s \<and>
   sess_heartbeat (deliver s ms) = sess_heartbeat s \<and>
   sess_server_open (deliver s ms) = sess_server_open s"
  by (simp add: deliver_def)

lemma request_keeps_live:
  assumes "all_live a"
  shows "all_live (snd (handleSseRequest (init P) uuid a r e c endpoint))"
proof -
  have same: "sseSessions (snd (ensureInitialized (init P) a e c)) = sseSessions a"
    by (rule ensureInitialized_sessions)
  show ?thesis
    using assms same
    by (auto simp: handleSseRequest_def Let_def all_live_def open_session_live deliver_live
        split: prod.splits sum.splits option.splits if_splits)
qed

lemma cancel_keeps_live: "all_live a \<Longrightarrow> all_live (stream_cancel a ident)"
  by (auto simp: all_live_def stream_cancel_def Let_def split: option.splits if_splits)

lemma op_keeps_live: "all_live a \<Longrightarrow> all_live (apply_op (init P) endpoint a op)"
  by (cases op) (simp_all add: request_keeps_live cancel_keeps_live)

lemma ops_keep_live: "all_live a \<Longrightarrow> all_live (foldl (apply_op (init P) endpoint) a ops)"
  by (induction ops arbitrary: a) (simp_all add: op_keeps_live)

lemma new_agent_live: "all_live (new_McpAgent st)"
  by (simp add: all_live_def new_McpAgent_def)

text \<open>
  Claim C5. The \<^verbatim>\<open>close\<close> of a split-channel session runs in two places, the DELETE
  branch and the cancellation of the stream, and each goes on to unregister the
  identifier. A DELETE for a registered identifier answers 204 and unregisters it,
  leaving the other sessions as they were; the cancellation of a session's stream
  unregisters it as well. After either, through any history that does not issue the
  identifier again, every request addressed to the identifier (a POST included) answers
  404 and changes nothing. A new instance of the agent, which is what is left after the
  server is torn down, answers 404 for every identifier. In every history of the
  endpoint, whatever closes a session, a session that a lookup finds is open: its
  stream is not closed, its heartbeat runs and its protocol server is open.
\<close>

theorem closed_session_not_found:
  "(sid \<noteq> [] \<and> sessionId_of endpoint (req_pathname r) = sid \<and>
    (\<forall>op \<in> set ops. \<not> issues op sid) \<longrightarrow>
     (sseSessions a sid = Some session \<and> req_method d = ''DELETE'' \<and>
      sessionId_of endpoint (req_pathname d) = sid \<longrightarrow>
        (\<exists>a'. handleSseRequest (init P) uuid a d e c endpoint = (Inr no_content, a') \<and>
              sseSessions a' sid = None \<and>
              (\<forall>other. other \<noteq> sid \<longrightarrow> sseSessions a' other = sseSessions a other) \<and>
              (let later = foldl (apply_op (init P) endpoint) a' ops in
               handleSseRequest (init P) uuid' later r e' c' endpoint = (Inr not_found, later))))
     \<and> (let later = foldl (apply_op (init P) endpoint) (stream_cancel a sid) ops in
         sseSessions (stream_cancel a sid) sid = None \<and>
         (\<forall>other. other \<noteq> sid \<longrightarrow> sseSessions (stream_cancel a sid) other = sseSessions a other) \<and>
         handleSseRequest (init P) uuid' later r e' c' endpoint = (Inr not_found, later))
     \<and> (let later = foldl (apply_op (init P) endpoint) new_MyMCP ops in
         handleSseRequest (init P) uuid' later r e' c' endpoint = (Inr not_found, later)))
   \<and> (all_live a \<longrightarrow> all_live (foldl (apply_op (init P) endpoint) a history))
   \<and> all_live (foldl (apply_op (init P) endpoint) new_MyMCP history)"
proof (intro impI conjI)
  assume h: "sid \<noteq> [] \<and> sessionId_of endpoint (req_pathname r) = sid \<and>
   (\<forall>op \<in> set ops. \<not> issues op sid)"
  assume l: "sseSessions a sid = Some session \<and> req_method d = ''DELETE'' \<and>
      sessionId_of endpoint (req_pathname d) = sid"
  let ?a' = "a\<lparr>sseSessions := ((sseSessions a)(sid \<mapsto> cleanup session))(sid := None)\<rparr>"
  have del: "handleSseRequest (init P) uuid a d e c endpoint = (Inr no_content, ?a')"
    using h l by (simp add: handleSseRequest_def no_content_def new_Response_def)
  have gone: "sseSessions ?a' sid = None" by simp
  have "sseSessions (foldl (apply_op (init P) endpoint) ?a' ops) sid = None"
    using gone h by (intro ops_keep_closed) blast+
  then have "handleSseRequest (init P) uuid' (foldl (apply_op (init P) endpoint) ?a' ops) r e' c' endpoint
       = (Inr not_found, foldl (apply_op (init P) endpoint) ?a' ops)"
    using h by (intro lookup_not_found) blast+
  with del gone show "\<exists>a'. handleSseRequest (init P) uuid a d e c endpoint = (Inr no_content, a') \<and>
              sseSessions a' sid = None \<and>
              (\<forall>other. other \<noteq> sid \<longrightarrow> sseSessions a' other = sseSessions a other) \<and>
              (let later = foldl (apply_op (init P) endpoint) a' ops in
               handleSseRequest (init P) uuid' later r e' c' endpoint = (Inr not_found, later))"
    by (intro exI [of _ ?a']) (simp add: Let_def)
next
  assume h: "sid \<noteq> [] \<and> sessionId_of endpoint (req_pathname r) = sid \<and>
   (\<forall>op \<in> set ops. \<not> issues op sid)"
  have gone: "sseSessions (stream_cancel a sid) sid = None"
    by (simp add: stream_cancel_def split: option.splits)
  have others: "\<forall>other. other \<noteq> sid \<longrightarrow> sseSessions (stream_cancel a sid) other = sseSessions a other"
    by (simp add: stream_cancel_def split: option.splits)
  have "sseSessions (foldl (apply_op (init P) endpoint) (stream_cancel a sid) ops) sid = None"
    using gone h by (intro ops_keep_closed) blast+
  then have "handleSseRequest (init P) uuid' (foldl (apply_op (init P) endpoint) (stream_cancel a sid) ops) r e' c' endpoint
       = (Inr not_found, foldl (apply_op (init P) endpoint) (stream_cancel a sid) ops)"
    using h by (intro lookup_not_found) blast+
  with gone others show "let later = foldl (apply_op (init P) endpoint) (stream_cancel a sid) ops in
         sseSessions (stream_cancel a sid) sid = None \<and>
         (\<forall>other. other \<noteq> sid \<longrightarrow> sseSessions (stream_cancel a sid) other = sseSessions a other) \<and>
         handleSseRequest (init P) uuid' later r e' c' endpoint = (Inr not_found, later)"
    by (simp add: Let_def)
next
  assume h: "sid \<noteq> [] \<and> sessionId_of endpoint (req_pathname r) = sid \<and>
   (\<forall>op \<in> set ops. \<not> issues op sid)"
  have "sseSessions new_MyMCP sid = None" by (simp add: new_MyMCP_def new_McpAgent_def)
  then have "sseSessions (foldl (apply_op (init P) endpoint) new_MyMCP ops) sid = None"
    using h by (intro ops_keep_closed) blast+
  then have "handleSseRequest (init P) uuid' (foldl (apply_op (init P) endpoint) new_MyMCP ops) r e' c' endpoint
       = (Inr not_found, foldl (apply_op (init P) endpoint) new_MyMCP ops)"
    using h by (intro lookup_not_found) blast+
  then show "let later = foldl (apply_op (init P) endpoint) new_MyMCP ops in
         handleSseRequest (init P) uuid' later r e' c' endpoint = (Inr not_found, later)"
    by (simp add: Let_def)
next
  assume "all_live a"
  then show "all_live (foldl (apply_op (init P) endpoint) a history)" by (rule ops_keep_live)
next
  show "all_live (foldl (apply_op (init P) endpoint) new_MyMCP history)"
    unfolding new_MyMCP_def by (rule ops_keep_live [OF new_agent_live])
qed

lemma a_open_live: "all_live a_open"
  unfolding a_open_def new_MyMCP_def by (rule request_keeps_live [OF new_agent_live])

theorem closed_session_not_found_witness:
  "(\<exists>a'. handleSseRequest (init no_parse) ''s9'' a_open (delete_of ''s1'') env_none 0 ''/sse''
          = (Inr no_content, a') \<and>
        sseSessions a' ''s1'' = None \<and>
        (let later = foldl (apply_op (init no_parse) ''/sse'') a'
                       [Req ''s2'' get_open env_none 1, Cancel ''s1'',
                        Req ''s4'' (post_to ''s2'' JNull) env_none 3] in
         handleSseRequest (init no_parse) ''s3'' later (post_to ''s1'' (JObj [])) env_none 2 ''/sse''
           = (Inr not_found, later))) \<and>
   all_live a_open \<and>
   all_live (foldl (apply_op (init no_parse) ''/sse'') a_open
               [Req ''s2'' get_open env_none 1, Cancel ''s1'',
                Req ''s4'' (post_to ''s2'' JNull) env_none 3])"
proof -
  let ?ops = "[Req ''s2'' get_open env_none 1, Cancel ''s1'',
               Req ''s4'' (post_to ''s2'' JNull) env_none 3]"
  have h: "''s1'' \<noteq> [] \<and> sessionId_of ''/sse'' (req_pathname (post_to ''s1'' (JObj []))) = ''s1'' \<and>
     (\<forall>op \<in> set ?ops. \<not> issues op ''s1'')"
    by (simp add: post_to_def sessionId_of_def)
  have l: "sseSessions a_open ''s1'' = Some (open_session ''s1'') \<and>
     req_method (delete_of ''s1'') = ''DELETE'' \<and>
     sessionId_of ''/sse'' (req_pathname (delete_of ''s1'')) = ''s1''"
    by (simp add: a_open_session delete_of_def sessionId_of_def)
  have 1: "\<exists>a'. handleSseRequest (init no_parse) ''s9'' a_open (delete_of ''s1'') env_none 0 ''/sse''
          = (Inr no_content, a') \<and>
        sseSessions a' ''s1'' = None \<and>
        (let later = foldl (apply_op (init no_parse) ''/sse'') a' ?ops in
         handleSseRequest (init no_parse) ''s3'' later (post_to ''s1'' (JObj [])) env_none 2 ''/sse''
           = (Inr not_found, later))"
    using closed_session_not_found [THEN conjunct1, THEN mp, OF h, THEN conjunct1, THEN mp, OF l,
      of "no_parse" "''s9''" env_none 0 "''s3''" env_none 2]
    by blast
  have 2: "all_live (foldl (apply_op (init no_parse) ''/sse'') a_open ?ops)"
    by (rule closed_session_not_found [THEN conjunct2, THEN conjunct1, THEN mp, OF a_open_live])
  from 1 a_open_live 2 show ?thesis by blast
qed

subsection \<open>Lazy initialization\<close>

lemma ensureInitialized_skip:
  "initialized a \<Longrightarrow>
     ensureInitialized i a e c = (Inr (), a\<lparr>env := Some e, executionCtx := Some c\<rparr>)"
  by (simp add: ensureInitialized_alt)

lemma init_keeps_flag: "initialized (snd (init P a)) = initialized a"
  using init_untouched [of a P] by (simp add: untouched_def)

lemma ensureInitialized_flag:
  "initialized (snd (ensureInitialized (init P) a e c)) \<longleftrightarrow>
     initialized a \<or> fst (ensureInitialized (init P) a e c) = Inr ()"
proof (cases "initialized a")
  case True
  then show ?thesis by (simp add: ensureInitialized_skip)
next
  case False
  let ?b = "a\<lparr>env := Some e, executionCtx := Some c\<rparr>"
  have "\<not> initialized (snd (init P ?b))" using False by (simp add: init_keeps_flag)
  with False show ?thesis
    by (auto simp: ensureInitialized_alt split: prod.splits sum.splits)
qed

lemma ensureInitialized_fails_uninitialized:
  "fst (ensureInitialized i a e c) = Inl err \<Longrightarrow> \<not> initialized a"
  by (auto simp: ensureInitialized_alt split: if_splits)

lemma invocations_skip:
  "initialized a \<Longrightarrow>
     initialized (invocations i a es) \<and> tools (invocations i a es) = tools a \<and>
     state (invocations i a es) = state a \<and> notified (invocations i a es) = notified a \<and>
     setup_runs i a es = 0 \<and> failures i a es = 0"
proof (induction es arbitrary: a)
  case Nil
  then show ?case by simp
next
  case (Cons ec es)
  obtain e c where ec: "ec = (e, c)" by (cases ec)
  let ?b = "a\<lparr>env := Some e, executionCtx := Some c\<rparr>"
  have "initialized ?b" using Cons.prems by simp
  from Cons.IH [OF this] show ?case
    using Cons.prems ec by (simp add: ensureInitialized_skip)
qed

lemma setup_runs_count:
  "setup_runs (init P) a es =
     failures (init P) a es +
       (if \<not> initialized a \<and> initialized (invocations (init P) a es) then 1 else 0)"
proof (induction es arbitrary: a)
  case Nil
  then show ?case by simp
next
  case (Cons ec es)
  obtain e c where ec: "ec = (e, c)" by (cases ec)
  let ?a' = "snd (ensureInitialized (init P) a e c)"
  show ?case
  proof (cases "initialized a")
    case True
    then show ?thesis using invocations_skip [OF True, of "init P" "ec # es"] by simp
  next
    case False
    show ?thesis
    proof (cases "fst (ensureInitialized (init P) a e c)")
      case (Inl err)
      then have "\<not> initialized ?a'" using False by (simp add: ensureInitialized_flag)
      with Cons.IH [of ?a'] False Inl ec show ?thesis by simp
    next
      case (Inr ok)
      then have i': "initialized ?a'" by (simp add: ensureInitialized_flag)
      from invocations_skip [OF i', of "init P" es] False Inr ec show ?thesis by simp
    qed
  qed
qed


lemma registerTool_distinct:
  "names_distinct a \<Longrightarrow> names_distinct (snd (registerTool a d))"
  by (auto simp: names_distinct_def registerTool_def has_key_def map_of_eq_None_iff)

lemma register_entries_distinct:
  "names_distinct a \<Longrightarrow> names_distinct (snd (register_entries a r cs))"
proof (induction cs arbitrary: a r)
  case Nil
  then show ?case by simp
next
  case (Cons c cs)
  show ?case
  proof (cases "usable c")
    case None
    then show ?thesis using Cons by simp
  next
    case (Some t)
    obtain n ep cfg where t: "t = (n, ep, cfg)" by (cases t)
    obtain x a1 where reg: "registerTool a (remote_tool n ep cfg) = (x, a1)"
      by (cases "registerTool a (remote_tool n ep cfg)")
    have d1: "names_distinct a1"
      using registerTool_distinct [OF Cons.prems, of "remote_tool n ep cfg"] reg by simp
    show ?thesis
    proof (cases x)
      case (Inl err)
      with Some t reg d1 show ?thesis by simp
    next
      case (Inr y)
      with Some t reg Cons.IH [OF d1, of "r @ [n]"] show ?thesis by simp
    qed
  qed
qed

lemma registerRemoteTools_distinct:
  assumes "names_distinct a"
  shows "names_distinct (snd (registerRemoteTools P a))"
proof -
  have "names_distinct (snd (register_entries a [] cs))" for cs
    using assms by (rule register_entries_distinct)
  then have "\<And>cs x a'. register_entries a [] cs = (x, a') \<Longrightarrow> names_distinct a'"
    by (metis snd_conv)
  then show ?thesis
    using assms
    by (auto simp: registerRemoteTools_def setState_def
        split: option.splits prod.splits sum.splits json_data.splits)
      (auto simp: names_distinct_def)
qed

lemma and_then_distinct:
  assumes "names_distinct (snd r)" "\<And>s. names_distinct s \<Longrightarrow> names_distinct (snd (f s))"
  shows "names_distinct (snd (and_then r f))"
proof (cases r)
  case (Pair x s)
  with assms show ?thesis by (cases x) (simp_all add: and_then_def)
qed

lemma init_distinct: "names_distinct a \<Longrightarrow> names_distinct (snd (init P a))"
  unfolding init_def registerBrowserTool_def registerD1Tool_def registerKvTool_def
    registerVectorizeTool_def registerDurableTool_def
  by (intro and_then_distinct registerTool_distinct registerRemoteTools_distinct)

lemma ensureInitialized_distinct:
  assumes "names_distinct a"
  shows "names_distinct (snd (ensureInitialized (init P) a e c))"
proof -
  let ?b = "a\<lparr>env := Some e, executionCtx := Some c\<rparr>"
  have "names_distinct ?b" using assms by (simp add: names_distinct_def)
  then have "names_distinct (snd (init P ?b))" by (rule init_distinct)
  with assms show ?thesis
    by (auto simp: ensureInitialized_alt names_distinct_def split: prod.splits sum.splits)
qed

lemma invocations_distinct:
  "names_distinct a \<Longrightarrow> names_distinct (invocations (init P) a es)"
proof (induction es arbitrary: a)
  case Nil
  then show ?case by simp
next
  case (Cons ec es)
  obtain e c where ec: "ec = (e, c)" by (cases ec)
  from Cons.IH [OF ensureInitialized_distinct [OF Cons.prems]] ec show ?case by simp
qed

text \<open>
  Invocations that each run to their end. The flag is set by the first invocation
  whose \<open>init\<close> completes and is never cleared: the invocations that run the setup
  are the failed ones and at most one more, the one that sets the flag. From then on
  every invocation skips the setup and leaves the registry, the shared state and the
  update hook alone. No sequence of invocations registers a name twice.
\<close>

lemma setup_skipped_once_initialized:
  "setup_runs (init P) a es =
     failures (init P) a es +
       (if \<not> initialized a \<and> initialized (invocations (init P) a es) then 1 else 0)
   \<and> (initialized a \<longrightarrow>
        initialized (invocations (init P) a es) \<and>
        setup_runs (init P) a es = 0 \<and>
        tools (invocations (init P) a es) = tools a \<and>
        state (invocations (init P) a es) = state a \<and>
        notified (invocations (init P) a es) = notified a)
   \<and> (names_distinct a \<longrightarrow> names_distinct (invocations (init P) a es))"
  using setup_runs_count [of P a es] invocations_skip [of a "init P" es]
    invocations_distinct [of a P es]
  by blast

lemma new_MyMCP_distinct: "names_distinct new_MyMCP"
  by (simp add: names_distinct_def new_MyMCP_def new_McpAgent_def)

lemma clash_again:
  assumes "map fst (tools a) = builtin_names" "\<not> initialized a"
  shows "ensureInitialized (init P) a e c
           = (Inl (DuplicateTool ''browser_render''), a\<lparr>env := Some e, executionCtx := Some c\<rparr>)"
proof -
  have "has_key (tools a) ''browser_render''"
    using assms(1) by (cases "map_of (tools a) ''browser_render''")
      (auto simp: has_key_def builtin_names_def map_of_eq_None_iff)
  then show ?thesis
    using assms(2)
    by (simp add: ensureInitialized_alt init_def and_then_def registerBrowserTool_def
        registerTool_def static_tool_def)
qed

text \<open>
  When \<open>init\<close> fails the flag stays unset and the next invocation runs the setup
  again: with a configured tool named like a built-in one, the first invocation fails
  on that name and the second fails on the first built-in registration.
\<close>

lemma setup_rerun_after_failure:
  "setup_runs (init clash_parse) new_MyMCP [(clash_env, 0), (clash_env, 1)] = 2 \<and>
   fst (ensureInitialized (init clash_parse) new_MyMCP clash_env 0) = Inl (DuplicateTool ''kv'') \<and>
   fst (ensureInitialized (init clash_parse)
          (snd (ensureInitialized (init clash_parse) new_MyMCP clash_env 0)) clash_env 1)
     = Inl (DuplicateTool ''browser_render'') \<and>
   \<not> initialized (invocations (init clash_parse) new_MyMCP [(clash_env, 0), (clash_env, 1)])"
proof -
  obtain a1 where a1: "ensureInitialized (init clash_parse) new_MyMCP clash_env 0
      = (Inl (DuplicateTool ''kv''), a1)"
    and names: "map fst (tools a1) = builtin_names" and flag: "\<not> initialized a1"
    using clash_first by blast
  have fresh: "\<not> initialized new_MyMCP" by (simp add: new_MyMCP_def new_McpAgent_def)
  show ?thesis
    using a1 flag fresh clash_again [OF names flag, of clash_parse clash_env 1] by simp
qed

lemma init_again:
  assumes "map fst (tools a) = builtin_names"
  shows "init P a = (Inl (DuplicateTool ''browser_render''), a)"
proof -
  have "has_key (tools a) ''browser_render''"
    using assms by (cases "map_of (tools a) ''browser_render''")
      (auto simp: has_key_def builtin_names_def map_of_eq_None_iff)
  then show ?thesis
    by (simp add: init_def and_then_def registerBrowserTool_def registerTool_def static_tool_def)
qed

lemma enter_fresh_MyMCP:
  "\<exists>a1. enter_init (init P) new_MyMCP env_none c = (Inr (), a1) \<and>
        map fst (tools a1) = builtin_names \<and> \<not> initialized a1"
proof -
  let ?a = "new_MyMCP\<lparr>env := Some env_none, executionCtx := Some c\<rparr>"
  have "\<exists>a'. init P ?a = (Inr (), a') \<and> map fst (tools a') = builtin_names \<and>
              state a' = state ?a \<and> notified a' = notified ?a \<and> sseSessions a' = sseSessions ?a
              \<and> initialized a' = initialized ?a"
    by (rule init_no_config [where e = env_none])
       (simp_all add: new_MyMCP_def new_McpAgent_def env_none_def)
  then show ?thesis
    by (auto simp: enter_init_def new_MyMCP_def new_McpAgent_def)
qed

text \<open>
  Claim C3 fails when a second invocation of the initializer starts while the first
  waits at its \<^verbatim>\<open>await\<close>. The flag is set only after \<^verbatim>\<open>await this.init()\<close>, so
  at that moment the built-in tools are registered and the flag is still unset. The
  second invocation, also with a valid configuration, finds the flag unset, runs
  \<^verbatim>\<open>init\<close> again and fails on the first registration with the duplicate-tool
  error; the first invocation then completes. The setup has run twice and one of the
  two callers gets an error.
\<close>

theorem interleaved_invocation_reruns_setup:
  "\<not> initialized (snd (enter_init (init no_parse) new_MyMCP env_none 0)) \<and>
   map fst (tools (snd (enter_init (init no_parse) new_MyMCP env_none 0))) = builtin_names \<and>
   fst (ensureInitialized (init no_parse)
          (snd (enter_init (init no_parse) new_MyMCP env_none 0)) env_none 1)
     = Inl (DuplicateTool ''browser_render'') \<and>
   fst (interleaved (init no_parse) new_MyMCP env_none 0 env_none 1) = Inr () \<and>
   fst (snd (interleaved (init no_parse) new_MyMCP env_none 0 env_none 1))
     = Inl (DuplicateTool ''browser_render'')"
proof -
  obtain a1 where a1: "enter_init (init no_parse) new_MyMCP env_none 0 = (Inr (), a1)"
    and names: "map fst (tools a1) = builtin_names" and flag: "\<not> initialized a1"
    using enter_fresh_MyMCP by blast
  let ?b = "a1\<lparr>env := Some env_none, executionCtx := Some 1\<rparr>"
  have "map fst (tools ?b) = builtin_names" using names by simp
  then have again: "init no_parse ?b = (Inl (DuplicateTool ''browser_render''), ?b)"
    by (rule init_again)
  have second: "enter_init (init no_parse) a1 env_none 1
      = (Inl (DuplicateTool ''browser_render''), ?b)"
    using again by (simp add: enter_init_def)
  have seq: "fst (ensureInitialized (init no_parse) a1 env_none 1)
      = Inl (DuplicateTool ''browser_render'')"
    using flag second by (simp add: ensureInitialized_def resume_init_def)
  have both: "interleaved (init no_parse) new_MyMCP env_none 0 env_none 1
      = (Inr (), Inl (DuplicateTool ''browser_render''), ?b\<lparr>initialized := True\<rparr>)"
    using a1 flag second by (simp add: interleaved_def resume_init_def)
  from a1 names flag seq both show ?thesis by simp
qed

subsection \<open>Tools from the configuration\<close>
















subsection \<open>Validators of configured tools\<close>

lemma issues_finish: "issues_of (finish errs v) = errs"
  by (simp add: issues_of_def finish_def)

lemma finish_accepts: "(\<exists>out. finish errs v = Inr out) \<longleftrightarrow> errs = []"
  by (simp add: finish_def)

lemma map_of_filter_keys:
  "map_of (filter (\<lambda>(k', x). Q k') ps) k = (if Q k then map_of ps k else None)"
  by (induction ps) auto

lemma has_key_shape_member: "(k, z) \<in> set shape \<Longrightarrow> has_key shape k"
  by (force simp: has_key_def map_of_eq_None_iff)

lemma declared_reads:
  assumes "has_key shape k"
  shows "has_key (declared shape ps) k = has_key ps k"
    and "read_key (declared shape ps) k = read_key ps k"
  using assms by (simp_all add: has_key_def read_key_def declared_def map_of_filter_keys)

lemma declared_pairs:
  "map (\<lambda>(k, z). (k, has_key (declared shape ps) k,
                    zparse u z (p @ [Key k]) (read_key (declared shape ps) k))) shape =
   map (\<lambda>(k, z). (k, has_key ps k, zparse u z (p @ [Key k]) (read_key ps k))) shape"
  by (rule map_cong) (auto simp: declared_reads dest: has_key_shape_member)

lemma declared_no_extras: "filter (\<lambda>(k, x). \<not> has_key shape k) (declared shape ps) = []"
  by (induction ps) (auto simp: declared_def)

lemma extras_no_issues:
  "concat (map (\<lambda>(k, a, r). issues_of r) (map (\<lambda>(k, x). (k, True, zparse u ZAny (p @ [Key k]) x)) xs)) = []"
  by (induction xs) (auto simp: issues_of_def)

lemma catchall_issues:
  "issues_of (zparse u (ZObject shape (Some ZAny)) p (JObj ps)) =
     concat (map (\<lambda>(k, a, r). issues_of r)
       (map (\<lambda>(k, z). (k, has_key ps k, zparse u z (p @ [Key k]) (read_key ps k))) shape))"
  using extras_no_issues [of u p "filter (\<lambda>(k, x). \<not> has_key shape k) ps"]
  by (simp add: merge_object_def issues_finish)

lemma extras_add_no_issue:
  "issues_of (zparse u (ZObject shape (Some ZAny)) p (JObj ps)) =
   issues_of (zparse u (ZObject shape (Some ZAny)) p (JObj (declared shape ps)))"
  by (simp only: catchall_issues declared_pairs)

lemma object_accepts:
  "(\<exists>out. zparse u (ZObject shape c) p (JObj ps) = Inr out) \<longleftrightarrow>
     issues_of (zparse u (ZObject shape c) p (JObj ps)) = []"
  by (simp add: merge_object_def issues_finish finish_accepts)

lemma extras_forwarded:
  assumes "zparse u (ZObject shape (Some ZAny)) p (JObj ps) = Inr out"
    and "distinct (map fst ps)" and "\<not> has_key shape k" and "k \<noteq> ''__proto__''"
    and "map_of ps k = Some v"
  shows "obj_get out k = Some v"
proof -
  let ?extras = "filter (\<lambda>(k, x). \<not> has_key shape k) ps"
  let ?D = "map (\<lambda>(k, z). (k, has_key ps k, zparse u z (p @ [Key k]) (read_key ps k))) shape"
  let ?X = "map (\<lambda>(k, x). (k, True, zparse u ZAny (p @ [Key k]) x)) ?extras"
  let ?keep = "\<lambda>(k, a, r). k \<noteq> ''__proto__'' \<and> (value_of r \<noteq> JUndefined \<or> a)"
  let ?Dm = "map (\<lambda>(k, a, r). (k, value_of r)) (filter ?keep ?D)"
  let ?Xm = "map (\<lambda>(k, a, r). (k, value_of r)) (filter ?keep ?X)"
  let ?kept = "filter (\<lambda>(k, x). k \<noteq> ''__proto__'') ?extras"
  have X: "?Xm = ?kept"
  proof (induction ps)
    case Nil
    show ?case by simp
  next
    case (Cons a ps)
    then show ?case by (cases a) (auto simp: value_of_def)
  qed
  have out: "out = JObj (fromEntries (?Dm @ ?Xm))"
    using assms(1) by (auto simp: merge_object_def finish_def split: if_splits)
  have "distinct (map fst ?extras)" using assms(2) by (rule distinct_map_filter)
  then have "distinct (map fst ?kept)" by (rule distinct_map_filter)
  then have "map_of (rev ?kept) k = map_of ?kept k" by (rule map_of_rev_distinct)
  also have "\<dots> = Some v" unfolding map_of_filter_keys using assms(3,4,5) by simp
  finally have "map_of (rev ?Xm) k = Some v" by (simp only: X)
  then have "map_of (rev (?Dm @ ?Xm)) k = Some v" by (simp add: map_add_def)
  then show ?thesis unfolding out by (simp add: map_of_fromEntries)
qed

lemma fst_retag: "fst ` (\<lambda>(k, v). (k, h v)) ` S = fst ` S"
  by force

lemma advertised_names:
  "\<exists>props. obj_get (remote_jsonSchema cfg) ''properties'' = Some (JObj props) \<and>
           fst ` set props = fst ` set (entries_of (cfg_schema cfg)) \<and>
           fst ` set (remote_shape cfg) = fst ` set (entries_of (cfg_schema cfg))"
  by (simp add: remote_jsonSchema_def remote_shape_def fst_fromEntries fst_retag)


text \<open>
  The validator compiled for a configured tool raises, for an argument object, exactly
  the issues it raises for the part of the object that the configuration declares, so it
  accepts the object if and only if it accepts that part. When the object is accepted,
  each undeclared property other than \<^verbatim>\<open>__proto__\<close> is in the validated
  arguments with its value unchanged, and \<open>invokeTool\<close> calls the handler with these
  arguments. The schema advertised for the tool has a property for each declared name
  and for no other name.
\<close>

lemma remote_validator_extras:
  "issues_of (parseAsync u (remote_schema cfg) (JObj ps)) =
     issues_of (parseAsync u (remote_schema cfg) (JObj (declared (remote_shape cfg) ps)))
   \<and> ((\<exists>out. parseAsync u (remote_schema cfg) (JObj ps) = Inr out) \<longleftrightarrow>
        (\<exists>out. parseAsync u (remote_schema cfg) (JObj (declared (remote_shape cfg) ps)) = Inr out))
   \<and> (parseAsync u (remote_schema cfg) (JObj ps) = Inr out \<and> distinct (map fst ps) \<and>
        \<not> has_key (remote_shape cfg) k \<and> k \<noteq> ''__proto__'' \<and> map_of ps k = Some v \<longrightarrow>
          obj_get out k = Some v)
   \<and> (\<exists>props. obj_get (remote_jsonSchema cfg) ''properties'' = Some (JObj props) \<and>
          fst ` set props = fst ` set (entries_of (cfg_schema cfg)) \<and>
          fst ` set (remote_shape cfg) = fst ` set (entries_of (cfg_schema cfg)))
   \<and> (ensureInitialized i a e c = (Inr (), a') \<and>
        map_of (tools a') n = Some (registration (remote_tool n ep cfg)) \<and>
        parseAsync u (remote_schema cfg) (JObj ps) = Inr out \<longrightarrow>
          invokeTool u i a n (JObj ps) e c =
            (Inr \<lparr>call_handler = RemoteProxy cfg, call_args = out, call_env = env a',
                  call_state = state a', call_executionCtx = executionCtx a',
                  call_extra = JUndefined\<rparr>, a'))"
proof (intro conjI impI)
  show same: "issues_of (parseAsync u (remote_schema cfg) (JObj ps)) =
     issues_of (parseAsync u (remote_schema cfg) (JObj (declared (remote_shape cfg) ps)))"
    unfolding parseAsync_def remote_schema_def by (rule extras_add_no_issue)
  show "(\<exists>out. parseAsync u (remote_schema cfg) (JObj ps) = Inr out) \<longleftrightarrow>
        (\<exists>out. parseAsync u (remote_schema cfg) (JObj (declared (remote_shape cfg) ps)) = Inr out)"
    using same unfolding parseAsync_def remote_schema_def by (simp only: object_accepts)
  show "\<exists>props. obj_get (remote_jsonSchema cfg) ''properties'' = Some (JObj props) \<and>
          fst ` set props = fst ` set (entries_of (cfg_schema cfg)) \<and>
          fst ` set (remote_shape cfg) = fst ` set (entries_of (cfg_schema cfg))"
    by (rule advertised_names)
next
  assume "parseAsync u (remote_schema cfg) (JObj ps) = Inr out \<and> distinct (map fst ps) \<and>
        \<not> has_key (remote_shape cfg) k \<and> k \<noteq> ''__proto__'' \<and> map_of ps k = Some v"
  then show "obj_get out k = Some v"
    unfolding parseAsync_def remote_schema_def by (blast intro: extras_forwarded)
next
  assume "ensureInitialized i a e c = (Inr (), a') \<and>
        map_of (tools a') n = Some (registration (remote_tool n ep cfg)) \<and>
        parseAsync u (remote_schema cfg) (JObj ps) = Inr out"
  then show "invokeTool u i a n (JObj ps) e c =
            (Inr \<lparr>call_handler = RemoteProxy cfg, call_args = out, call_env = env a',
                  call_state = state a', call_executionCtx = executionCtx a',
                  call_extra = JUndefined\<rparr>, a')"
    by (simp add: invokeTool_def registration_def remote_tool_def coalesce_def)
qed

text \<open>The strict parse of the same shape, \<^verbatim>\<open>z.object(shape)\<close>, raises the same
  issues and gives the declared part only.\<close>

lemma strip_issues:
  "issues_of (zparse u (ZObject shape None) p (JObj ps)) =
   issues_of (zparse u (ZObject shape (Some ZAny)) p (JObj ps))"
  by (simp only: catchall_issues) (simp add: merge_object_def issues_finish)

lemma search_shape:
  "remote_shape search_config = [(''q'', ZString []), (''limit'', ZOptional (ZNumber []))]"
  by (simp add: remote_shape_def search_config_def entries_of_def is_optional_def
      fromEntries_plain not_digit_plain digit_of_def)

lemma search_args_accepted:
  "parseAsync any_url (remote_schema search_config) (JObj search_args) = Inr (JObj search_args)"
  by (simp add: parseAsync_def remote_schema_def search_shape search_args_def
      merge_object_def finish_def issues_of_def value_of_def has_key_def read_key_def
      string_issues_def fromEntries_plain not_digit_plain digit_of_def)

lemma search_args_stripped:
  "parseAsync any_url (ZObject (remote_shape search_config) None) (JObj search_args)
     = Inr (JObj [(''q'', JStr ''cats'')])"
  by (simp add: parseAsync_def search_shape search_args_def
      merge_object_def finish_def issues_of_def value_of_def has_key_def read_key_def
      string_issues_def fromEntries_plain not_digit_plain digit_of_def)

text \<open>A property named \<^verbatim>\<open>__proto__\<close> is accepted and left out of the validated
  arguments.\<close>

lemma proto_key_dropped:
  "parseAsync any_url (remote_schema search_config)
     (JObj [(''q'', JStr ''cats''), (''__proto__'', JObj [(''admin'', JBool True)])])
     = Inr (JObj [(''q'', JStr ''cats'')])"
  by (simp add: parseAsync_def remote_schema_def search_shape
      merge_object_def finish_def issues_of_def value_of_def has_key_def read_key_def
      string_issues_def fromEntries_plain not_digit_plain digit_of_def)

lemma a_search_facts:
  "initialized a_search \<and> state a_search = \<lparr>remoteTools = [''search'']\<rparr> \<and>
   env a_search = Some search_env \<and> executionCtx a_search = Some 0 \<and>
   map_of (tools a_search) ''search'' =
     Some (registration (remote_tool ''search'' ''https://example.com/search'' search_config)) \<and>
   map_of (createServer a_search) ''search'' =
     Some \<lparr>srv_inputSchema = Some (remote_shape search_config),
           srv_tool = registration
             (remote_tool ''search'' ''https://example.com/search'' search_config)\<rparr>"
  by (intro conjI)
     (simp_all add: a_search_def ensureInitialized_alt init_def and_then_def
      registerBrowserTool_def registerD1Tool_def registerKvTool_def registerVectorizeTool_def
      registerDurableTool_def registerTool_def has_key_def static_tool_def
      registerRemoteTools_def search_env_def search_parse_def
      new_MyMCP_def new_McpAgent_def setState_def createServer_def registration_def
      remote_tool_def remote_schema_def shape_of_def usable_def
      search_config_def [THEN arg_cong [where f = cfg_name]]
      search_config_def [THEN arg_cong [where f = cfg_endpoint]]
      search_config_def [THEN arg_cong [where f = cfg_description]])

text \<open>
  Claim C9 fails for a call that comes in over a session. The validator of a configured
  tool is \<^verbatim>\<open>z.object(shape).catchall(z.any())\<close>, but \<^verbatim>\<open>createServer\<close>
  registers the tool with \<^verbatim>\<open>inputSchema: tool.schema.shape\<close>, the shape without
  the catch-all, and the protocol SDK parses the arguments of a request with
  \<^verbatim>\<open>z.object(shape)\<close>, which strips the properties the configuration does not
  declare, before it calls the callback. The call is accepted, and the handler is
  called without the undeclared properties the client sent. On the direct path the
  validator accepts the same arguments and the handler is called with all of them.
\<close>

theorem session_call_strips_extras:
  "callTool any_url a_search (createServer a_search) search_env 0 ''search''
     (JObj search_args) request_extra
     = Inr \<lparr>call_handler = RemoteProxy search_config,
            call_args = JObj [(''q'', JStr ''cats'')],
            call_env = Some search_env, call_state = \<lparr>remoteTools = [''search'']\<rparr>,
            call_executionCtx = Some 0, call_extra = request_extra\<rparr> \<and>
   obj_get (JObj search_args) ''debug'' = Some (JBool True) \<and>
   obj_get (JObj [(''q'', JStr ''cats'')]) ''debug'' = None \<and>
   parseAsync any_url (remote_schema search_config) (JObj search_args)
     = Inr (JObj search_args) \<and>
   fst (invokeTool any_url (init search_parse) a_search ''search'' (JObj search_args)
          search_env 0)
     = Inr \<lparr>call_handler = RemoteProxy search_config, call_args = JObj search_args,
            call_env = Some search_env, call_state = \<lparr>remoteTools = [''search'']\<rparr>,
            call_executionCtx = Some 0, call_extra = JUndefined\<rparr>"
proof -
  have 1: "callTool any_url a_search (createServer a_search) search_env 0 ''search''
     (JObj search_args) request_extra
     = Inr \<lparr>call_handler = RemoteProxy search_config,
            call_args = JObj [(''q'', JStr ''cats'')],
            call_env = Some search_env, call_state = \<lparr>remoteTools = [''search'']\<rparr>,
            call_executionCtx = Some 0, call_extra = request_extra\<rparr>"
    by (simp add: callTool_def a_search_facts search_args_stripped toolCallback_def
        registration_def remote_tool_def)
       (simp add: a_search_facts parseAsync_def remote_schema_def search_shape
        merge_object_def finish_def issues_of_def value_of_def has_key_def read_key_def
        string_issues_def fromEntries_plain not_digit_plain digit_of_def)
  have 2: "obj_get (JObj search_args) ''debug'' = Some (JBool True)"
    "obj_get (JObj [(''q'', JStr ''cats'')]) ''debug'' = None"
    by (simp_all add: search_args_def)
  have 3: "fst (invokeTool any_url (init search_parse) a_search ''search'' (JObj search_args)
          search_env 0)
     = Inr \<lparr>call_handler = RemoteProxy search_config, call_args = JObj search_args,
            call_env = Some search_env, call_state = \<lparr>remoteTools = [''search'']\<rparr>,
            call_executionCtx = Some 0, call_extra = JUndefined\<rparr>"
    by (simp add: invokeTool_def ensureInitialized_alt a_search_facts coalesce_def
        registration_def remote_tool_def search_args_accepted)
  from 1 2 3 search_args_accepted show ?thesis by simp
qed
end
